theory Spec2Isabelle
  imports Complex_Main
begin

section \<open>Values of the host language\<close>

text \<open>
  Request bodies and environment variables are read as strings that may be absent:
  \<open>None\<close> is \<open>undefined\<close>. JavaScript's \<open>!v\<close> on such a value is true for
  \<open>undefined\<close> and for the empty string.
\<close>

definition truthy :: "string option \<Rightarrow> bool" where
  "truthy v = (case v of None \<Rightarrow> False | Some s \<Rightarrow> s \<noteq> [])"

text \<open>\<open>v || d\<close> where \<open>d\<close> is a string.\<close>

definition orElse :: "string option \<Rightarrow> string \<Rightarrow> string" where
  "orElse v d = (if truthy v then the v else d)"

text \<open>
  White space in the sense of \<open>\s\<close> and of \<open>String.prototype.trim\<close>, for the characters
  a \<open>char\<close> can hold (code points below 256): tab, line feed, vertical tab, form feed,
  carriage return, space and the no-break space.
\<close>

definition is_space :: "char \<Rightarrow> bool" where
  "is_space c = (c \<in> set [CHR 0x09, CHR 0x0A, CHR 0x0B, CHR 0x0C, CHR 0x0D, CHR 0x20, CHR 0xA0])"

definition trim :: "string \<Rightarrow> string" where
  "trim s = rev (dropWhile is_space (rev (dropWhile is_space s)))"

fun starts_with :: "string \<Rightarrow> string \<Rightarrow> bool" where
  "starts_with s [] = True"
| "starts_with [] (p # ps) = False"
| "starts_with (c # cs) (p # ps) = (c = p \<and> starts_with cs ps)"

text \<open>\<open>s.includes(p)\<close>\<close>

fun str_includes :: "string \<Rightarrow> string \<Rightarrow> bool" where
  "str_includes [] p = (p = [])"
| "str_includes (c # cs) p = (starts_with (c # cs) p \<or> str_includes cs p)"

section \<open>The two stores\<close>

text \<open>Times are milliseconds since the epoch, as \<open>Date.now()\<close> gives them.\<close>

type_synonym time = int

text \<open>The OTP slot embedded in a user document: \<open>user.otp = { code, expiresAt, purpose }\<close>.\<close>

record otp_slot =
  code :: string
  expiresAt :: time
  purpose :: string

text \<open>
  Modelled from the spec: the user model (models/User.model.js) is not among the sources.
  The fields are the ones the handlers read and write; the OTP slot is a single
  optional field of the user entity, absent when \<open>user.otp\<close> is \<open>undefined\<close>. The
  password is kept as the handler assigns it (hashing belongs to the model).
\<close>

record user =
  u_id :: nat
  u_name :: string
  u_email :: string
  u_phone :: string
  u_password :: string
  u_verified_email :: bool
  u_verified_phone :: bool
  u_otp :: "otp_slot option"

text \<open>
  Modelled from the spec: the OTP model (models/OTP.model.js) is not among the sources.
  A standalone record carries an email or a phone, the code, the purpose, the expiry
  and the flag \<open>verified\<close>, which is initially false.
\<close>

record otp_record =
  o_id :: nat
  o_email :: "string option"
  o_phone :: "string option"
  o_code :: string
  o_purpose :: string
  o_expiresAt :: time
  o_verified :: bool

text \<open>
  The database: both collections in their natural order, and the supply of fresh
  identifiers for new OTP documents.
\<close>

record db =
  users :: "user list"
  otps :: "otp_record list"
  next_oid :: nat

text \<open>Replace the first element that satisfies \<open>P\<close>; remove the first one that does.\<close>

fun replace_first :: "('a \<Rightarrow> bool) \<Rightarrow> 'a \<Rightarrow> 'a list \<Rightarrow> 'a list" where
  "replace_first P y [] = []"
| "replace_first P y (x # xs) = (if P x then y # xs else x # replace_first P y xs)"

fun remove_first :: "('a \<Rightarrow> bool) \<Rightarrow> 'a list \<Rightarrow> 'a list" where
  "remove_first P [] = []"
| "remove_first P (x # xs) = (if P x then xs else x # remove_first P xs)"

text \<open>\<open>User.findOne(query)\<close>: the first document matching the query, or \<open>null\<close>.\<close>

definition User_findOne :: "(user \<Rightarrow> bool) \<Rightarrow> db \<Rightarrow> user option" where
  "User_findOne q d = find q (users d)"

text \<open>\<open>user.save()\<close>: the document with this \<open>_id\<close> is written back.\<close>

definition User_save :: "user \<Rightarrow> db \<Rightarrow> db" where
  "User_save u d = d\<lparr>users := replace_first (\<lambda>x. u_id x = u_id u) u (users d)\<rparr>"

definition OTP_findOne :: "(otp_record \<Rightarrow> bool) \<Rightarrow> db \<Rightarrow> otp_record option" where
  "OTP_findOne q d = find q (otps d)"

definition OTP_deleteMany :: "(otp_record \<Rightarrow> bool) \<Rightarrow> db \<Rightarrow> db" where
  "OTP_deleteMany q d = d\<lparr>otps := filter (\<lambda>r. \<not> q r) (otps d)\<rparr>"

definition OTP_deleteOne :: "nat \<Rightarrow> db \<Rightarrow> db" where
  "OTP_deleteOne i d = d\<lparr>otps := remove_first (\<lambda>r. o_id r = i) (otps d)\<rparr>"

text \<open>
  \<open>OTP.create({ email | phone, code, purpose, expiresAt })\<close>: a new document with a fresh
  \<open>_id\<close> and \<open>verified\<close> at its initial value.
\<close>

definition OTP_create ::
  "string option \<Rightarrow> string option \<Rightarrow> string \<Rightarrow> string \<Rightarrow> time \<Rightarrow> db \<Rightarrow> db" where
  "OTP_create em ph c p e d =
     d\<lparr>otps := otps d @ [\<lparr>o_id = next_oid d, o_email = em, o_phone = ph, o_code = c,
                           o_purpose = p, o_expiresAt = e, o_verified = False\<rparr>],
       next_oid := Suc (next_oid d)\<rparr>"

text \<open>\<open>otpRecord.save()\<close>\<close>

definition OTP_save :: "otp_record \<Rightarrow> db \<Rightarrow> db" where
  "OTP_save r d = d\<lparr>otps := replace_first (\<lambda>x. o_id x = o_id r) r (otps d)\<rparr>"

section \<open>Requests and responses\<close>

text \<open>The fields the four handlers take from \<open>req.body\<close>.\<close>

record request =
  req_email :: "string option"
  req_phone :: "string option"
  req_otp :: "string option"
  req_purpose :: "string option"
  req_newPassword :: "string option"

text \<open>The part of a user that verify-otp returns.\<close>

record user_view =
  v_id :: nat
  v_name :: string
  v_email :: string
  v_phone :: string
  v_verified_email :: bool
  v_verified_phone :: bool

text \<open>
  A response: the HTTP status and the JSON body. \<open>token_for\<close> is the user id that
  \<open>generateToken\<close> was called with.
\<close>

record response =
  status :: nat
  success :: bool
  message :: string
  otpExpiresIn :: "nat option"
  devOtp :: "string option"
  res_error :: "string option"
  res_code :: "string option"
  res_smtpErrorCode :: "string option"
  res_smtpConfig :: "(string \<times> string \<times> string) option"
  res_email :: "string option"
  res_phone :: "string option"
  token_for :: "nat option"
  res_user :: "user_view option"

definition reply :: "nat \<Rightarrow> bool \<Rightarrow> string \<Rightarrow> response" where
  "reply st ok msg =
     \<lparr>status = st, success = ok, message = msg, otpExpiresIn = None, devOtp = None,
      res_error = None, res_code = None, res_smtpErrorCode = None, res_smtpConfig = None,
      res_email = None,
      res_phone = None, token_for = None, res_user = None\<rparr>"

section \<open>POST /reset-password\<close>

definition reset_password :: "time \<Rightarrow> request \<Rightarrow> db \<Rightarrow> response \<times> db" where
  "reset_password now rq d =
     (if \<not> truthy (req_email rq) \<or> \<not> truthy (req_otp rq) \<or> \<not> truthy (req_newPassword rq)
      then (reply 400 False ''Please provide email, OTP and new password'', d)
      else case User_findOne (\<lambda>u. u_email u = the (req_email rq)) d of
        None \<Rightarrow> (reply 400 False ''Invalid OTP or user not found'', d)
      | Some u \<Rightarrow>
         (case u_otp u of
            None \<Rightarrow> (reply 400 False ''Invalid OTP or user not found'', d)
          | Some s \<Rightarrow>
             if purpose s \<noteq> ''password_reset'' \<or> code s \<noteq> the (req_otp rq)
             then (reply 400 False ''Invalid OTP'', d)
             else if now > expiresAt s
             then (reply 400 False ''OTP has expired'', d)
             else (reply 200 True ''Password has been reset successfully. You can now log in.'',
                   User_save (u\<lparr>u_password := the (req_newPassword rq), u_otp := None\<rparr>) d)))"

section \<open>POST /verify-otp\<close>

text \<open>The query of the user-based flow: \<open>email\<close> and \<open>phone\<close>, each when supplied.\<close>

definition user_query :: "request \<Rightarrow> user \<Rightarrow> bool" where
  "user_query rq u =
     ((truthy (req_email rq) \<longrightarrow> u_email u = the (req_email rq)) \<and>
      (truthy (req_phone rq) \<longrightarrow> u_phone u = the (req_phone rq)))"

text \<open>
  The query of the application flow: \<open>{ purpose: 'application', verified: false }\<close> with
  the email when supplied, the phone otherwise.
\<close>

definition otp_query :: "request \<Rightarrow> otp_record \<Rightarrow> bool" where
  "otp_query rq r =
     (o_purpose r = ''application'' \<and> \<not> o_verified r \<and>
      (if truthy (req_email rq) then o_email r = req_email rq else o_phone r = req_phone rq))"

definition view_of :: "user \<Rightarrow> user_view" where
  "view_of u = \<lparr>v_id = u_id u, v_name = u_name u, v_email = u_email u, v_phone = u_phone u,
               v_verified_email = u_verified_email u, v_verified_phone = u_verified_phone u\<rparr>"

text \<open>The update of the verification flags, by the purpose and the subject of the request.\<close>

definition mark_verified :: "request \<Rightarrow> user \<Rightarrow> user" where
  "mark_verified rq u =
     (let u1 = (if req_purpose rq = Some ''email'' \<or>
                   (req_purpose rq = Some ''verification'' \<and> truthy (req_email rq))
                then u\<lparr>u_verified_email := True\<rparr> else u);
          u2 = (if req_purpose rq = Some ''phone'' \<or>
                   (req_purpose rq = Some ''verification'' \<and> truthy (req_phone rq))
                then u1\<lparr>u_verified_phone := True\<rparr> else u1)
      in u2)"

definition verify_otp :: "time \<Rightarrow> request \<Rightarrow> db \<Rightarrow> response \<times> db" where
  "verify_otp now rq d =
     (if \<not> truthy (req_otp rq) \<or> (\<not> truthy (req_email rq) \<and> \<not> truthy (req_phone rq))
      then (reply 400 False ''Please provide OTP and email or phone'', d)
      else if req_purpose rq = Some ''application'' then
        (if \<not> truthy (req_email rq) \<and> \<not> truthy (req_phone rq)
         then (reply 400 False ''Please provide email or phone'', d)
         else case OTP_findOne (otp_query rq) d of
           None \<Rightarrow> (reply 400 False ''Invalid OTP or OTP not found'', d)
         | Some r \<Rightarrow>
            if now > o_expiresAt r
            then (reply 400 False ''OTP has expired'', OTP_deleteOne (o_id r) d)
            else if o_code r \<noteq> the (req_otp rq)
            then (reply 400 False ''Invalid OTP'', d)
            else ((reply 200 True ''OTP verified successfully'')
                    \<lparr>res_email := (if truthy (req_email rq) then req_email rq else None),
                     res_phone := (if truthy (req_phone rq) then req_phone rq else None)\<rparr>,
                  OTP_save (r\<lparr>o_verified := True\<rparr>) d))
      else case User_findOne (user_query rq) d of
        None \<Rightarrow> (reply 400 False ''Invalid OTP or OTP not found'', d)
      | Some u \<Rightarrow>
         (case u_otp u of
            None \<Rightarrow> (reply 400 False ''Invalid OTP or OTP not found'', d)
          | Some s \<Rightarrow>
             if now > expiresAt s
             then (reply 400 False ''OTP has expired'', d)
             else if code s \<noteq> the (req_otp rq)
             then (reply 400 False ''Invalid OTP'', d)
             else
               let u3 = (mark_verified rq u)\<lparr>u_otp := None\<rparr>
               in ((reply 200 True ''OTP verified successfully'')
                     \<lparr>token_for := Some (u_id u3), res_user := Some (view_of u3)\<rparr>,
                   User_save u3 d)))"

text \<open>The outcomes of a validation, in the vocabulary of the specification.\<close>

datatype outcome = OK | NOT_FOUND | EXPIRED | MISMATCH | OTHER

definition outcome_of :: "response \<Rightarrow> outcome" where
  "outcome_of r =
     (if success r then OK
      else if message r = ''Invalid OTP or OTP not found'' \<or>
              message r = ''Invalid OTP or user not found'' then NOT_FOUND
      else if message r = ''OTP has expired'' then EXPIRED
      else if message r = ''Invalid OTP'' then MISMATCH
      else OTHER)"

section \<open>The mail transport adapter (utils/sendEmail.js)\<close>

text \<open>The environment variables the adapter and the handlers read.\<close>

record env =
  EMAIL_HOST :: "string option"
  EMAIL_PORT :: "string option"
  EMAIL_USER :: "string option"
  EMAIL_PASS :: "string option"
  EMAIL_FROM :: "string option"
  NODE_ENV :: "string option"
  SMTP_DEBUG :: "string option"

text \<open>
  The builtin \<open>Number\<close> is a parameter \<open>num\<close> of the functions that call it: it reads
  a string as a number, \<open>None\<close> being \<open>NaN\<close>.
\<close>

type_synonym to_number = "string \<Rightarrow> real option"

definition diagnoseSMTPConfig :: "env \<Rightarrow> bool" where
  "diagnoseSMTPConfig e =
     (if \<not> truthy (EMAIL_HOST e) \<or> trim (the (EMAIL_HOST e)) = [] then False
      else if EMAIL_HOST e = Some ''localhost'' \<or> EMAIL_HOST e = Some ''127.0.0.1'' then False
      else True)"

definition validateSMTPConfig :: "to_number \<Rightarrow> env \<Rightarrow> bool" where
  "validateSMTPConfig num e =
     (let required = [EMAIL_HOST e, EMAIL_PORT e, EMAIL_USER e, EMAIL_PASS e];
          missing = filter (\<lambda>v. \<not> truthy v) required;
          empty = filter (\<lambda>v. truthy v \<and> trim (the v) = []) required
      in if missing \<noteq> [] then False
         else if empty \<noteq> [] then False
         else let port = num (the (EMAIL_PORT e))
              in if port = None \<or> the port \<le> 0 then False
                 else let host = trim (the (EMAIL_HOST e))
                      in if host = [] \<or> host = ''localhost'' \<or> host = ''127.0.0.1'' then False
                         else True)"

text \<open>
  The client handle is the configuration \<open>nodemailer.createTransport\<close> was called with;
  the constant time-outs and TLS options are left out. Host and port are the
  literals of the source; the credentials are read from the environment at creation.
\<close>

record transport =
  t_host :: string
  t_port :: nat
  t_secure :: bool
  t_auth_user :: "string option"
  t_auth_pass :: "string option"
  t_requireTLS :: bool
  t_service :: "string option"
  t_debug :: bool

definition createTransporter :: "to_number \<Rightarrow> env \<Rightarrow> transport option" where
  "createTransporter num e =
     (if \<not> diagnoseSMTPConfig e then None
      else if \<not> validateSMTPConfig num e then None
      else
        let host = trim (the (EMAIL_HOST e));
            port = num (the (EMAIL_PORT e));
            useTLS = (port = Some 587)
        in Some \<lparr>t_host = ''smtp-relay.brevo.com'', t_port = 465, t_secure = False,
                  t_auth_user = EMAIL_USER e, t_auth_pass = EMAIL_PASS e,
                  t_requireTLS = useTLS,
                  t_service = (if str_includes host ''gmail.com'' then Some ''gmail'' else None),
                  t_debug = (NODE_ENV e = Some ''development'' \<or> SMTP_DEBUG e = Some ''true'')\<rparr>)"

text \<open>A message handed to \<open>trans.sendMail\<close> (its bodies are left out).\<close>

record envelope =
  m_from :: "string option"
  m_to :: string
  m_subject :: string

text \<open>
  The module state \<open>transporter\<close>, \<open>transporterInitialized\<close>, \<open>lastConfigHash\<close>, and
  the list of the calls made to \<open>trans.sendMail\<close> so far.
\<close>

record mailer =
  transporter :: "transport option"
  transporterInitialized :: bool
  lastConfigHash :: "string option"
  attempts :: "envelope list"

definition getConfigHash :: "env \<Rightarrow> string" where
  "getConfigHash e =
     orElse (EMAIL_HOST e) [] @ ''_'' @ orElse (EMAIL_PORT e) [] @ ''_'' @ orElse (EMAIL_USER e) []"

definition getTransporter :: "to_number \<Rightarrow> env \<Rightarrow> mailer \<Rightarrow> transport option \<times> mailer" where
  "getTransporter num e m =
     (let currentConfigHash = getConfigHash e
      in if \<not> transporterInitialized m \<or> lastConfigHash m \<noteq> Some currentConfigHash
         then let t = createTransporter num e
              in (t, m\<lparr>transporter := t, transporterInitialized := True,
                        lastConfigHash := Some currentConfigHash\<rparr>)
         else (transporter m, m))"

text \<open>What the SMTP server does with a message: accepts it, or the call throws.\<close>

datatype smtp_reply =
    Accepted string
  | Rejected "string option" string

record send_result =
  r_success :: bool
  r_error :: "string option"
  r_code :: "string option"
  r_messageId :: "string option"
  r_originalError :: "string option"
  r_hint :: "string option"
  r_config :: "(string \<times> string \<times> string) option"

definition failure :: "string \<Rightarrow> string \<Rightarrow> send_result" where
  "failure err c =
     \<lparr>r_success = False, r_error = Some err, r_code = Some c, r_messageId = None,
      r_originalError = None, r_hint = None, r_config = None\<rparr>"

text \<open>The classification in the \<open>catch\<close> of \<open>sendEmail\<close>: the message and the hint.\<close>

definition classify :: "env \<Rightarrow> string option \<Rightarrow> string \<Rightarrow> string \<times> string" where
  "classify e c msg =
     (if c = Some ''EAUTH'' then
        (''SMTP authentication failed. Please verify EMAIL_USER and EMAIL_PASS.'',
         ''For Gmail, you must use an App Password, not your regular password.'')
      else if c = Some ''ECONNECTION'' \<or> c = Some ''ETIMEDOUT'' \<or> c = Some ''ESOCKET'' then
        (let host = orElse (EMAIL_HOST e) ''NOT SET''; port = orElse (EMAIL_PORT e) ''NOT SET''
         in if host = ''NOT SET'' \<or> trim host = [] \<or> host = ''localhost'' \<or> host = ''127.0.0.1''
            then (''SMTP host is not configured correctly. EMAIL_HOST is missing or set to localhost.'',
                  ''Please set EMAIL_HOST in your .env file (e.g., smtp.gmail.com for Gmail).'')
            else (''Cannot connect to SMTP server at '' @ host @ '':'' @ port @ ''.'',
                  ''Please verify EMAIL_HOST and EMAIL_PORT are correct. Check your firewall and network connection.''))
      else if c = Some ''EENVELOPE'' then
        (''Invalid email address. Please check the recipient email.'', [])
      else if c = Some ''ETIMEDOUT'' then
        (''SMTP connection timed out.'',
         ''The SMTP server did not respond in time. Check your network connection and EMAIL_HOST.'')
      else (msg, []))"

definition sendEmail ::
  "to_number \<Rightarrow> env \<Rightarrow> smtp_reply \<Rightarrow> string option \<Rightarrow> string option \<Rightarrow> mailer
     \<Rightarrow> send_result \<times> mailer" where
  "sendEmail num e rep to subject m =
     (let (trans, m1) = getTransporter num e m
      in case trans of
           None \<Rightarrow>
             (failure ''SMTP is not configured. Please set EMAIL_HOST, EMAIL_PORT, EMAIL_USER, and EMAIL_PASS environment variables.''
                ''ENOCONFIG'', m1)
         | Some t \<Rightarrow>
             if \<not> truthy to \<or> \<not> truthy subject
             then (failure ''Missing required fields: to and subject are required'' ''EMISSING'', m1)
             else
               let m2 = m1\<lparr>attempts := attempts m1 @
                          [\<lparr>m_from = (if truthy (EMAIL_FROM e) then EMAIL_FROM e else EMAIL_USER e),
                            m_to = the to, m_subject = the subject\<rparr>]\<rparr>
               in (case rep of
                    Accepted mid \<Rightarrow>
                      (\<lparr>r_success = True, r_error = None, r_code = None, r_messageId = Some mid,
                        r_originalError = None, r_hint = None, r_config = None\<rparr>, m2)
                  | Rejected c msg \<Rightarrow>
                      (\<lparr>r_success = False, r_error = Some (fst (classify e c msg)), r_code = c,
                        r_messageId = None, r_originalError = Some msg,
                        r_hint = Some (snd (classify e c msg)),
                        r_config = Some (orElse (EMAIL_HOST e) ''NOT SET'',
                                         orElse (EMAIL_PORT e) ''NOT SET'',
                                         (if truthy (EMAIL_USER e)
                                          then take 3 (the (EMAIL_USER e)) @ ''***''
                                          else ''NOT SET''))\<rparr>, m2)))"

subsection \<open>The email-shape pattern\<close>

text \<open>
  Regular expressions with character classes, matched by derivatives. \<open>Except P\<close> is a
  negated class: one character that does not satisfy \<open>P\<close>.
\<close>

datatype rx =
    Null
  | Eps
  | Chr char
  | Except "char \<Rightarrow> bool"
  | Alt rx rx
  | Seq rx rx
  | Star rx

fun nullable :: "rx \<Rightarrow> bool" where
  "nullable Null = False"
| "nullable Eps = True"
| "nullable (Chr a) = False"
| "nullable (Except P) = False"
| "nullable (Alt r s) = (nullable r \<or> nullable s)"
| "nullable (Seq r s) = (nullable r \<and> nullable s)"
| "nullable (Star r) = True"

fun deriv :: "char \<Rightarrow> rx \<Rightarrow> rx" where
  "deriv c Null = Null"
| "deriv c Eps = Null"
| "deriv c (Chr a) = (if a = c then Eps else Null)"
| "deriv c (Except P) = (if P c then Null else Eps)"
| "deriv c (Alt r s) = Alt (deriv c r) (deriv c s)"
| "deriv c (Seq r s) =
     (if nullable r then Alt (Seq (deriv c r) s) (deriv c s) else Seq (deriv c r) s)"
| "deriv c (Star r) = Seq (deriv c r) (Star r)"

text \<open>\<open>/^r$/.test(s)\<close>: the whole string matches.\<close>

fun rx_test :: "rx \<Rightarrow> string \<Rightarrow> bool" where
  "rx_test r [] = nullable r"
| "rx_test r (c # cs) = rx_test (deriv c r) cs"

definition Plus :: "rx \<Rightarrow> rx" where
  "Plus r = Seq r (Star r)"

text \<open>\<open>[^\s@]\<close>\<close>

definition not_space_at :: rx where
  "not_space_at = Except (\<lambda>c. is_space c \<or> c = CHR ''@'')"

text \<open>\<open>/^[^\s@]+@[^\s@]+\.[^\s@]+$/\<close>\<close>

definition email_pattern :: rx where
  "email_pattern =
     Seq (Plus not_space_at) (Seq (Chr CHR ''@'')
       (Seq (Plus not_space_at) (Seq (Chr CHR ''.'') (Plus not_space_at))))"

definition sendOTPEmail ::
  "to_number \<Rightarrow> env \<Rightarrow> smtp_reply \<Rightarrow> string option \<Rightarrow> string \<Rightarrow> string option \<Rightarrow> mailer
     \<Rightarrow> send_result \<times> mailer" where
  "sendOTPEmail num e rep to otp purp m =
     (let purpose = (case purp of None \<Rightarrow> ''verification'' | Some p \<Rightarrow> p)
      in if \<not> truthy to \<or> \<not> rx_test email_pattern (the to)
         then (failure ''Invalid email address format'' ''EINVALID'', m)
         else sendEmail num e rep to (Some (''Your OTP for '' @ purpose)) m)"

section \<open>POST /forgot-password and POST /send-otp\<close>

text \<open>
  What a request meets outside the stores: the clock, the code \<open>generateOTP()\<close> returns
  (utils/generateToken.js is not among the sources), the answer of the SMTP server, the
  environment and the builtin \<open>Number\<close>.
\<close>

record ctx =
  c_now :: time
  c_otp :: string
  c_smtp :: smtp_reply
  c_env :: env
  c_Number :: to_number

definition ascii_lower :: "char \<Rightarrow> char" where
  "ascii_lower c =
     (let n = (of_char c :: nat) in if 65 \<le> n \<and> n \<le> 90 then char_of (n + 32) else c)"

text \<open>\<open>/auth/i.test(s)\<close>\<close>

definition mentions_auth :: "string \<Rightarrow> bool" where
  "mentions_auth s = str_includes (map ascii_lower s) ''auth''"

text \<open>\<open>new Date(Date.now() + 10 * 60 * 1000)\<close>\<close>

definition expiry :: "time \<Rightarrow> time" where
  "expiry now = now + 10 * 60 * 1000"

definition forgot_password :: "ctx \<Rightarrow> request \<Rightarrow> db \<Rightarrow> mailer \<Rightarrow> response \<times> db \<times> mailer" where
  "forgot_password cx rq d m =
     (if \<not> truthy (req_email rq) then (reply 400 False ''Please provide email'', d, m)
      else case User_findOne (\<lambda>u. u_email u = the (req_email rq)) d of
        None \<Rightarrow> (reply 404 False ''User not found with this email'', d, m)
      | Some u \<Rightarrow>
          let otp = c_otp cx;
              expiresAt = expiry (c_now cx);
              d1 = User_save (u\<lparr>u_otp := Some \<lparr>code = otp, expiresAt = expiresAt,
                                                  purpose = ''password_reset''\<rparr>\<rparr>) d;
              (emailResult, m1) =
                 sendOTPEmail (c_Number cx) (c_env cx) (c_smtp cx) (req_email rq) otp
                   (Some ''password reset'') m
          in if \<not> r_success emailResult then
               let authFail = (r_code emailResult = Some ''EAUTH'' \<or>
                               mentions_auth (orElse (r_error emailResult) []));
                   baseMessage = (if authFail then ''SMTP authentication failed.''
                                  else orElse (r_error emailResult) ''Failed to send reset email.'')
               in ((reply 500 False baseMessage)\<lparr>res_code := r_code emailResult\<rparr>, d1, m1)
             else (reply 200 True
                     ''Password reset OTP has been sent to your email. It will expire in 10 minutes.'',
                   d1, m1))"

text \<open>\<open>...(process.env.NODE_ENV !== 'production' && { devOtp: otp })\<close>\<close>

definition dev_otp :: "env \<Rightarrow> string \<Rightarrow> string option" where
  "dev_otp e c = (if NODE_ENV e \<noteq> Some ''production'' then Some c else None)"

definition send_otp :: "ctx \<Rightarrow> request \<Rightarrow> db \<Rightarrow> mailer \<Rightarrow> response \<times> db \<times> mailer" where
  "send_otp cx rq d m =
     (let otp = c_otp cx;
          expiresAt = expiry (c_now cx)
      in
      if req_purpose rq = Some ''application'' then
        (if truthy (req_email rq) then
           let d1 = OTP_deleteMany
                      (\<lambda>r. o_email r = req_email rq \<and> o_purpose r = ''application'') d;
               d2 = OTP_create (req_email rq) None otp ''application'' expiresAt d1;
               (emailResult, m1) =
                  sendOTPEmail (c_Number cx) (c_env cx) (c_smtp cx) (req_email rq) otp
                    (Some ''application'') m
           in if \<not> r_success emailResult then
                let errorMessage =
                      orElse (r_error emailResult) ''Failed to send OTP email.'' @
                      (if truthy (r_hint emailResult) then '' '' @ the (r_hint emailResult) else [])
                in ((reply 500 False errorMessage)
                      \<lparr>res_smtpErrorCode := r_code emailResult,
                       res_smtpConfig := r_config emailResult,
                       devOtp := dev_otp (c_env cx) otp\<rparr>, d2, m1)
              else ((reply 200 True
                       ''OTP sent successfully to your email address. Please check your inbox.'')
                      \<lparr>otpExpiresIn := Some 600, devOtp := dev_otp (c_env cx) otp\<rparr>, d2, m1)
         else if truthy (req_phone rq) then
           let d1 = OTP_deleteMany
                      (\<lambda>r. o_phone r = req_phone rq \<and> o_purpose r = ''application'') d;
               d2 = OTP_create None (req_phone rq) otp ''application'' expiresAt d1
           in ((reply 200 True ''OTP sent successfully'')
                 \<lparr>otpExpiresIn := Some 600, devOtp := dev_otp (c_env cx) otp\<rparr>, d2, m)
         else (reply 400 False ''Please provide email or phone for application OTP'', d, m))
      else
        let user1 = (if truthy (req_email rq)
                     then User_findOne (\<lambda>u. u_email u = the (req_email rq)) d else None)
        in if truthy (req_email rq) \<and> user1 = None \<and> req_purpose rq \<noteq> Some ''login''
           then (reply 404 False ''User not found'', d, m)
           else
             let phoneOnly = (truthy (req_phone rq) \<and> \<not> truthy (req_email rq));
                 user2 = (if phoneOnly
                          then User_findOne (\<lambda>u. u_phone u = the (req_phone rq)) d else user1)
             in if phoneOnly \<and> user2 = None \<and> req_purpose rq \<noteq> Some ''login''
                then (reply 404 False ''User not found'', d, m)
                else
                  let d1 = (case user2 of
                              None \<Rightarrow> d
                            | Some u \<Rightarrow>
                                User_save
                                  (u\<lparr>u_otp := Some \<lparr>code = otp, expiresAt = expiresAt,
                                       purpose = orElse (req_purpose rq) ''verification''\<rparr>\<rparr>) d)
                  in if truthy (req_email rq) then
                       let (emailResult, m1) =
                             sendOTPEmail (c_Number cx) (c_env cx) (c_smtp cx) (req_email rq) otp
                               (Some (orElse (req_purpose rq) ''verification'')) m
                       in if \<not> r_success emailResult
                          then ((reply 500 False ''Failed to send OTP email'')
                                  \<lparr>res_error := r_error emailResult,
                                   res_code := r_code emailResult\<rparr>, d1, m1)
                          else ((reply 200 True ''OTP sent successfully'')
                                  \<lparr>otpExpiresIn := Some 600,
                                   devOtp := dev_otp (c_env cx) otp\<rparr>, d1, m1)
                     else ((reply 200 True ''OTP sent successfully'')
                             \<lparr>otpExpiresIn := Some 600,
                              devOtp := dev_otp (c_env cx) otp\<rparr>, d1, m))"

section \<open>What the email-shape pattern accepts\<close>

text \<open>The strings a pattern accepts, as a relation; the matcher is checked against it.\<close>

inductive matches :: "rx \<Rightarrow> string \<Rightarrow> bool" where
  m_Eps: "matches Eps []"
| m_Chr: "matches (Chr a) [a]"
| m_Except: "\<not> P c \<Longrightarrow> matches (Except P) [c]"
| m_AltL: "matches r w \<Longrightarrow> matches (Alt r s) w"
| m_AltR: "matches s w \<Longrightarrow> matches (Alt r s) w"
| m_Seq: "matches r u \<Longrightarrow> matches s v \<Longrightarrow> matches (Seq r s) (u @ v)"
| m_StarNil: "matches (Star r) []"
| m_StarCons: "matches r u \<Longrightarrow> matches (Star r) v \<Longrightarrow> matches (Star r) (u @ v)"

text \<open>A non-empty string free of white space and of \<open>@\<close>.\<close>

definition address_part :: "string \<Rightarrow> bool" where
  "address_part w = (w \<noteq> [] \<and> list_all (\<lambda>x. \<not> is_space x \<and> x \<noteq> CHR ''@'') w)"

section \<open>The order of the checks, as the specification words it\<close>

text \<open>
  Validate in the specification: existence, then expiry, then value match, then
  success. The stored record is given by its expiry and its code.
\<close>

definition Validate_in_order :: "(time \<times> string) option \<Rightarrow> time \<Rightarrow> string \<Rightarrow> outcome" where
  "Validate_in_order rec now supplied =
     (case rec of
        None \<Rightarrow> NOT_FOUND
      | Some (e, c) \<Rightarrow> if now > e then EXPIRED else if c \<noteq> supplied then MISMATCH else OK)"

text \<open>The record a validation is about: the standalone one, or the slot of the user.\<close>

definition standalone_lookup :: "request \<Rightarrow> db \<Rightarrow> (time \<times> string) option" where
  "standalone_lookup rq d =
     map_option (\<lambda>r. (o_expiresAt r, o_code r)) (OTP_findOne (otp_query rq) d)"

definition embedded_lookup :: "(user \<Rightarrow> bool) \<Rightarrow> db \<Rightarrow> otp_slot option" where
  "embedded_lookup q d = (case User_findOne q d of None \<Rightarrow> None | Some u \<Rightarrow> u_otp u)"

text \<open>The expiry and code of the record a verify-otp request is checked against.\<close>

definition stored_record :: "request \<Rightarrow> db \<Rightarrow> (time \<times> string) option" where
  "stored_record rq d =
     (if req_purpose rq = Some ''application'' then standalone_lookup rq d
      else map_option (\<lambda>s. (expiresAt s, code s)) (embedded_lookup (user_query rq) d))"

section \<open>Predicates for the statements\<close>

text \<open>A verify-otp request that passes the first check: a code and a subject are supplied.\<close>

definition well_formed :: "request \<Rightarrow> bool" where
  "well_formed rq = (truthy (req_otp rq) \<and> (truthy (req_email rq) \<or> truthy (req_phone rq)))"

text \<open>The user send-otp looks up: by email when one is supplied, else by phone.\<close>

definition issue_user :: "request \<Rightarrow> db \<Rightarrow> user option" where
  "issue_user rq d =
     (if truthy (req_email rq) then User_findOne (\<lambda>u. u_email u = the (req_email rq)) d
      else if truthy (req_phone rq) then User_findOne (\<lambda>u. u_phone u = the (req_phone rq)) d
      else None)"

text \<open>The database after the user-based flow of send-otp has stored the code.\<close>

definition issued :: "ctx \<Rightarrow> request \<Rightarrow> db \<Rightarrow> db" where
  "issued cx rq d =
     (case issue_user rq d of
        None \<Rightarrow> d
      | Some u \<Rightarrow>
          User_save (u\<lparr>u_otp := Some \<lparr>code = c_otp cx, expiresAt = c_now cx + 600000,
                            purpose = orElse (req_purpose rq) ''verification''\<rparr>\<rparr>) d)"

text \<open>The call of \<open>sendOTPEmail\<close> a handler makes, with the label it passes as purpose.\<close>

definition deliver :: "ctx \<Rightarrow> request \<Rightarrow> string \<Rightarrow> mailer \<Rightarrow> send_result \<times> mailer" where
  "deliver cx rq label m =
     sendOTPEmail (c_Number cx) (c_env cx) (c_smtp cx) (req_email rq) (c_otp cx) (Some label) m"

text \<open>The application records of the subject of a request.\<close>

definition is_subject :: "request \<Rightarrow> otp_record \<Rightarrow> bool" where
  "is_subject rq r =
     (o_purpose r = ''application'' \<and>
      (if truthy (req_email rq) then o_email r = req_email rq else o_phone r = req_phone rq))"

definition subject_records :: "request \<Rightarrow> db \<Rightarrow> otp_record list" where
  "subject_records rq d = filter (is_subject rq) (otps d)"

text \<open>A later request \<open>rq'\<close> is about the subject send-otp looked up for \<open>rq\<close>.\<close>

definition same_subject_as :: "request \<Rightarrow> request \<Rightarrow> bool" where
  "same_subject_as rq rq' =
     (if truthy (req_email rq) then req_email rq' = req_email rq
      else req_phone rq' = req_phone rq)"

text \<open>
  Two application records are about the same subject when they share a present email
  or a present phone.
\<close>

definition same_subject :: "otp_record \<Rightarrow> otp_record \<Rightarrow> bool" where
  "same_subject r r' =
     (o_purpose r = ''application'' \<and> o_purpose r' = ''application'' \<and>
      ((o_email r \<noteq> None \<and> o_email r = o_email r') \<or>
       (o_phone r \<noteq> None \<and> o_phone r = o_phone r')))"

text \<open>
  The invariant of the stores: identifiers are unique, those of the OTP documents lie
  below the supply, and there is at most one application record per subject.
\<close>

definition store_ok :: "db \<Rightarrow> bool" where
  "store_ok d =
     (distinct (map u_id (users d)) \<and> distinct (map o_id (otps d)) \<and>
      (\<forall>r\<in>set (otps d). o_id r < next_oid d) \<and>
      (\<forall>r\<in>set (otps d). \<forall>r'\<in>set (otps d). same_subject r r' \<longrightarrow> r = r'))"

text \<open>
  The stores the four handlers can reach, one request after the other, from an empty
  OTP collection and users with distinct identifiers.
\<close>

inductive reachable :: "db \<Rightarrow> bool" where
  start: "distinct (map u_id us) \<Longrightarrow> reachable \<lparr>users = us, otps = [], next_oid = n\<rparr>"
| forgot: "reachable d \<Longrightarrow> reachable (fst (snd (forgot_password cx rq d m)))"
| reset: "reachable d \<Longrightarrow> reachable (snd (reset_password now rq d))"
| send: "reachable d \<Longrightarrow> reachable (fst (snd (send_otp cx rq d m)))"
| verify: "reachable d \<Longrightarrow> reachable (snd (verify_otp now rq d))"

section \<open>Example data\<close>

text \<open>A user with a pending password-reset code that expires at time 1000.\<close>

definition ann :: user where
  "ann = \<lparr>u_id = 1, u_name = ''Ann'', u_email = ''a@x.com'', u_phone = ''5550001'',
          u_password = ''old-secret'', u_verified_email = False, u_verified_phone = False,
          u_otp = Some \<lparr>code = ''123456'', expiresAt = 1000, purpose = ''password_reset''\<rparr>\<rparr>"

definition db_ann :: db where
  "db_ann = \<lparr>users = [ann], otps = [], next_oid = 0\<rparr>"

definition reset_req :: "string \<Rightarrow> request" where
  "reset_req c = \<lparr>req_email = Some ''a@x.com'', req_phone = None, req_otp = Some c,
                  req_purpose = None, req_newPassword = Some ''new-secret''\<rparr>"

definition verify_req :: "string \<Rightarrow> string \<Rightarrow> request" where
  "verify_req c p = \<lparr>req_email = Some ''a@x.com'', req_phone = None, req_otp = Some c,
                     req_purpose = Some p, req_newPassword = None\<rparr>"

text \<open>A database with one pending application record that expires at time 1000.\<close>

definition pending :: otp_record where
  "pending = \<lparr>o_id = 0, o_email = Some ''a@x.com'', o_phone = None, o_code = ''654321'',
              o_purpose = ''application'', o_expiresAt = 1000, o_verified = False\<rparr>"

definition db_app :: db where
  "db_app = \<lparr>users = [ann], otps = [pending], next_oid = 1\<rparr>"

definition phone_req :: "string \<Rightarrow> string \<Rightarrow> request" where
  "phone_req c p = \<lparr>req_email = None, req_phone = Some ''5550001'', req_otp = Some c,
                    req_purpose = Some p, req_newPassword = None\<rparr>"

text \<open>
  A store with an application record for a phone number that belongs to no user, and
  requests for that number and for an email address that belongs to no user.
\<close>

definition guest_pending :: otp_record where
  "guest_pending = \<lparr>o_id = 0, o_email = None, o_phone = Some ''5559999'', o_code = ''654321'',
                    o_purpose = ''application'', o_expiresAt = 900000, o_verified = False\<rparr>"

definition db_guest :: db where
  "db_guest = \<lparr>users = [ann], otps = [guest_pending], next_oid = 1\<rparr>"

definition guest_req :: "string option \<Rightarrow> string \<Rightarrow> request" where
  "guest_req c p = \<lparr>req_email = None, req_phone = Some ''5559999'', req_otp = c,
                    req_purpose = Some p, req_newPassword = None\<rparr>"

definition nobody_req :: "string \<Rightarrow> request" where
  "nobody_req e = \<lparr>req_email = Some e, req_phone = None, req_otp = None,
                   req_purpose = Some ''login'', req_newPassword = None\<rparr>"

text \<open>
  Example data for the mail adapter. \<open>Number_digits\<close> reads a non-empty string of
  decimal digits as \<open>Number\<close> does; it is used on such strings only.
\<close>

definition Number_digits :: to_number where
  "Number_digits s =
     (if s \<noteq> [] \<and> list_all (\<lambda>c. c \<in> set ''0123456789'') s
      then Some (real (foldl (\<lambda>a c. 10 * a + (of_char c - 48)) 0 s)) else None)"

definition env_ok :: env where
  "env_ok = \<lparr>EMAIL_HOST = Some ''smtp.example.com'', EMAIL_PORT = Some ''587'',
             EMAIL_USER = Some ''mailer@example.com'', EMAIL_PASS = Some ''first-secret'',
             EMAIL_FROM = None, NODE_ENV = Some ''production'', SMTP_DEBUG = None\<rparr>"

text \<open>The example environment after the credential alone was rotated.\<close>

definition env_rotated :: env where
  "env_rotated = env_ok\<lparr>EMAIL_PASS := Some ''second-secret''\<rparr>"

definition mailer0 :: mailer where
  "mailer0 = \<lparr>transporter = None, transporterInitialized = False, lastConfigHash = None,
              attempts = []\<rparr>"

definition cx0 :: ctx where
  "cx0 = \<lparr>c_now = 5000, c_otp = ''111111'', c_smtp = Accepted ''msg-1'', c_env = env_ok,
          c_Number = Number_digits\<rparr>"

definition cx1 :: ctx where
  "cx1 = \<lparr>c_now = 7000, c_otp = ''222222'', c_smtp = Accepted ''msg-2'', c_env = env_ok,
          c_Number = Number_digits\<rparr>"

definition cx_rejecting :: ctx where
  "cx_rejecting = \<lparr>c_now = 5000, c_otp = ''111111'',
                   c_smtp = Rejected (Some ''EAUTH'') ''Invalid login'', c_env = env_ok,
                   c_Number = Number_digits\<rparr>"

section \<open>Lists\<close>

lemma find_SomeD: "find P xs = Some x \<Longrightarrow> P x \<and> x \<in> set xs"
  by (induction xs) (auto split: if_splits)

lemma find_replace_first_same:
  "distinct (map f xs) \<Longrightarrow> find Q xs = Some x \<Longrightarrow> Q y \<Longrightarrow> f y = f x \<Longrightarrow>
     find Q (replace_first (\<lambda>z. f z = f x) y xs) = Some y"
proof (induction xs)
  case Nil
  then show ?case by simp
next
  case (Cons a xs)
  show ?case
  proof (cases "Q a")
    case True
    with Cons.prems show ?thesis by simp
  next
    case False
    with Cons.prems have in_tl: "find Q xs = Some x" by simp
    then have "x \<in> set xs" by (simp add: find_SomeD)
    with Cons.prems(1) have "f a \<noteq> f x" by auto
    with False Cons in_tl show ?thesis by simp
  qed
qed

lemma set_replace_first:
  "distinct (map f xs) \<Longrightarrow> z \<in> set (replace_first (\<lambda>t. f t = k) y xs) \<Longrightarrow>
     z = y \<or> (z \<in> set xs \<and> f z \<noteq> k)"
proof (induction xs)
  case Nil
  then show ?case by simp
next
  case (Cons a xs)
  have "f z \<noteq> f a" if "z \<in> set xs" "f a \<notin> f ` set xs" for z
    using that by (metis imageI)
  with Cons show ?case by (auto split: if_splits)
qed

lemma length_remove_first:
  "x \<in> set xs \<Longrightarrow> P x \<Longrightarrow> Suc (length (remove_first P xs)) = length xs"
  by (induction xs) auto

lemma remove_first_gone:
  "distinct (map f xs) \<Longrightarrow> x \<in> set xs \<Longrightarrow> x \<notin> set (remove_first (\<lambda>z. f z = f x) xs)"
proof (induction xs)
  case Nil
  then show ?case by simp
next
  case (Cons a xs)
  show ?case
  proof (cases "f a = f x")
    case True
    with Cons.prems have "x \<notin> set xs \<or> a = x" by (metis distinct.simps(2) imageI list.simps(9) list.set_map)
    with True Cons.prems show ?thesis by auto
  next
    case False
    with Cons show ?thesis by auto
  qed
qed

section \<open>Reset-password changes the user in one save, or not at all\<close>





section \<open>Facts about the example data\<close>

lemma verify_req_sel [simp]:
  "req_email (verify_req c p) = Some ''a@x.com''" "req_phone (verify_req c p) = None"
  "req_otp (verify_req c p) = Some c" "req_purpose (verify_req c p) = Some p"
  by (simp_all add: verify_req_def)

lemma reset_req_sel [simp]:
  "req_email (reset_req c) = Some ''a@x.com''" "req_otp (reset_req c) = Some c"
  "req_newPassword (reset_req c) = Some ''new-secret''"
  by (simp_all add: reset_req_def)

lemma truthy_Some [simp]: "truthy (Some s) = (s \<noteq> [])" and truthy_None [simp]: "\<not> truthy None"
  by (simp_all add: truthy_def)

lemma ann_lookup:
  "embedded_lookup (user_query (verify_req c p)) db_ann = u_otp ann"
  "embedded_lookup (\<lambda>u. u_email u = ''a@x.com'') db_ann = u_otp ann"
  by (simp_all add: embedded_lookup_def User_findOne_def user_query_def db_ann_def ann_def)

lemma ann_slot: "u_otp ann = Some \<lparr>code = ''123456'', expiresAt = 1000, purpose = ''password_reset''\<rparr>"
  by (simp add: ann_def)

section \<open>The order of the checks\<close>

text \<open>
  C2, the counterexample. The slot of the example user expired at time 1000; at time
  2000 reset-password answers a wrong code with ``Invalid OTP'' (MISMATCH), not with
  ``OTP has expired''.
\<close>

theorem reset_password_checks_code_before_expiry:
  "embedded_lookup (\<lambda>u. u_email u = ''a@x.com'') db_ann =
      Some \<lparr>code = ''123456'', expiresAt = 1000, purpose = ''password_reset''\<rparr> \<and>
   outcome_of (fst (reset_password 2000 (reset_req ''000000'') db_ann)) = MISMATCH"
  by (simp add: reset_password_def reset_req_def db_ann_def ann_def truthy_def User_findOne_def
      embedded_lookup_def outcome_of_def reply_def)

lemma verify_app_order:
  assumes "truthy (req_otp rq)" "truthy (req_email rq) \<or> truthy (req_phone rq)"
    "req_purpose rq = Some ''application''"
  shows "outcome_of (fst (verify_otp now rq d)) =
            Validate_in_order (standalone_lookup rq d) now (the (req_otp rq))"
proof (cases "OTP_findOne (otp_query rq) d")
  case None
  with assms show ?thesis
    by (simp add: verify_otp_def Validate_in_order_def standalone_lookup_def outcome_of_def reply_def)
next
  case (Some r)
  with assms show ?thesis
    by (simp add: verify_otp_def Validate_in_order_def standalone_lookup_def outcome_of_def reply_def)
qed

lemma verify_user_order:
  assumes "truthy (req_otp rq)" "truthy (req_email rq) \<or> truthy (req_phone rq)"
    "req_purpose rq \<noteq> Some ''application''"
  shows "outcome_of (fst (verify_otp now rq d)) =
            Validate_in_order
              (map_option (\<lambda>s. (expiresAt s, code s)) (embedded_lookup (user_query rq) d))
              now (the (req_otp rq))"
proof (cases "User_findOne (user_query rq) d")
  case None
  with assms show ?thesis
    by (simp add: verify_otp_def Validate_in_order_def embedded_lookup_def outcome_of_def reply_def)
next
  case (Some u)
  with assms show ?thesis
    by (cases "u_otp u")
       (simp_all add: verify_otp_def Validate_in_order_def embedded_lookup_def outcome_of_def
          reply_def Let_def)
qed

lemma reset_order:
  assumes "truthy (req_otp rq)" "truthy (req_email rq)" "truthy (req_newPassword rq)"
  shows "outcome_of (fst (reset_password now rq d)) =
            (case embedded_lookup (\<lambda>u. u_email u = the (req_email rq)) d of
               None \<Rightarrow> NOT_FOUND
             | Some s \<Rightarrow>
                 if purpose s \<noteq> ''password_reset'' \<or> code s \<noteq> the (req_otp rq) then MISMATCH
                 else if now > expiresAt s then EXPIRED
                 else OK)"
proof (cases "User_findOne (\<lambda>u. u_email u = the (req_email rq)) d")
  case None
  with assms show ?thesis
    by (simp add: reset_password_def embedded_lookup_def outcome_of_def reply_def)
next
  case (Some u)
  with assms show ?thesis
    by (cases "u_otp u")
       (simp_all add: reset_password_def embedded_lookup_def outcome_of_def reply_def)
qed

text \<open>
  C2, as amended. For a request that supplies a code and a subject, both flows of
  verify-otp answer as Validate does: existence, then expiry, then value match, then
  success; so an expired record with a wrong code gives EXPIRED. Reset-password checks
  existence, then purpose and code together, then expiry: for an expired slot a wrong
  code gives MISMATCH, and only the right code gives EXPIRED.
\<close>

theorem validation_branch_order:
  assumes "truthy (req_otp rq)"
  shows "(truthy (req_email rq) \<or> truthy (req_phone rq) \<longrightarrow>
          outcome_of (fst (verify_otp now rq d)) =
            Validate_in_order
              (if req_purpose rq = Some ''application'' then standalone_lookup rq d
               else map_option (\<lambda>s. (expiresAt s, code s)) (embedded_lookup (user_query rq) d))
              now (the (req_otp rq))) \<and>
         (truthy (req_email rq) \<and> truthy (req_newPassword rq) \<longrightarrow>
          outcome_of (fst (reset_password now rq d)) =
            (case embedded_lookup (\<lambda>u. u_email u = the (req_email rq)) d of
               None \<Rightarrow> NOT_FOUND
             | Some s \<Rightarrow>
                 if purpose s \<noteq> ''password_reset'' \<or> code s \<noteq> the (req_otp rq) then MISMATCH
                 else if now > expiresAt s then EXPIRED
                 else OK))"
proof (intro conjI impI)
  assume "truthy (req_email rq) \<or> truthy (req_phone rq)"
  with assms show "outcome_of (fst (verify_otp now rq d)) =
            Validate_in_order
              (if req_purpose rq = Some ''application'' then standalone_lookup rq d
               else map_option (\<lambda>s. (expiresAt s, code s)) (embedded_lookup (user_query rq) d))
              now (the (req_otp rq))"
    using verify_app_order [of rq now d] verify_user_order [of rq now d] by presburger
next
  assume "truthy (req_email rq) \<and> truthy (req_newPassword rq)"
  with assms show "outcome_of (fst (reset_password now rq d)) =
            (case embedded_lookup (\<lambda>u. u_email u = the (req_email rq)) d of
               None \<Rightarrow> NOT_FOUND
             | Some s \<Rightarrow>
                 if purpose s \<noteq> ''password_reset'' \<or> code s \<noteq> the (req_otp rq) then MISMATCH
                 else if now > expiresAt s then EXPIRED
                 else OK)"
    using reset_order [of rq now d] by blast
qed

theorem validation_branch_order_witness:
  "outcome_of (fst (verify_otp 2000 (verify_req ''000000'' ''login'') db_ann)) = EXPIRED \<and>
   outcome_of (fst (reset_password 2000 (reset_req ''000000'') db_ann)) = MISMATCH \<and>
   outcome_of (fst (reset_password 2000 (reset_req ''123456'') db_ann)) = EXPIRED"
proof -
  have a: "outcome_of (fst (verify_otp 2000 (verify_req ''000000'' ''login'') db_ann)) = EXPIRED"
    using validation_branch_order [of "verify_req ''000000'' ''login''" 2000 db_ann]
    by (simp add: ann_lookup ann_slot Validate_in_order_def)
  have b: "outcome_of (fst (reset_password 2000 (reset_req ''000000'') db_ann)) = MISMATCH"
    using validation_branch_order [of "reset_req ''000000''" 2000 db_ann]
    by (simp add: ann_lookup ann_slot)
  have c: "outcome_of (fst (reset_password 2000 (reset_req ''123456'') db_ann)) = EXPIRED"
    using validation_branch_order [of "reset_req ''123456''" 2000 db_ann]
    by (simp add: ann_lookup ann_slot)
  from a b c show ?thesis by blast
qed

section \<open>The cases of verify-otp\<close>

lemma verify_otp_malformed:
  "\<not> well_formed rq \<Longrightarrow>
     verify_otp now rq d = (reply 400 False ''Please provide OTP and email or phone'', d)"
  by (auto simp add: verify_otp_def well_formed_def)

lemma verify_otp_app_none:
  "well_formed rq \<Longrightarrow> req_purpose rq = Some ''application'' \<Longrightarrow>
   OTP_findOne (otp_query rq) d = None \<Longrightarrow>
     verify_otp now rq d = (reply 400 False ''Invalid OTP or OTP not found'', d)"
  by (auto simp add: verify_otp_def well_formed_def)

lemma verify_otp_app_some:
  "well_formed rq \<Longrightarrow> req_purpose rq = Some ''application'' \<Longrightarrow>
   OTP_findOne (otp_query rq) d = Some r \<Longrightarrow>
     verify_otp now rq d =
       (if now > o_expiresAt r
        then (reply 400 False ''OTP has expired'', OTP_deleteOne (o_id r) d)
        else if o_code r \<noteq> the (req_otp rq)
        then (reply 400 False ''Invalid OTP'', d)
        else ((reply 200 True ''OTP verified successfully'')
                \<lparr>res_email := (if truthy (req_email rq) then req_email rq else None),
                 res_phone := (if truthy (req_phone rq) then req_phone rq else None)\<rparr>,
              OTP_save (r\<lparr>o_verified := True\<rparr>) d))"
  by (auto simp add: verify_otp_def well_formed_def)

lemma verify_otp_user_none:
  "well_formed rq \<Longrightarrow> req_purpose rq \<noteq> Some ''application'' \<Longrightarrow>
   embedded_lookup (user_query rq) d = None \<Longrightarrow>
     verify_otp now rq d = (reply 400 False ''Invalid OTP or OTP not found'', d)"
  by (auto simp add: verify_otp_def well_formed_def embedded_lookup_def split: option.splits)

lemma verify_otp_user_some:
  "well_formed rq \<Longrightarrow> req_purpose rq \<noteq> Some ''application'' \<Longrightarrow>
   User_findOne (user_query rq) d = Some u \<Longrightarrow> u_otp u = Some s \<Longrightarrow>
     verify_otp now rq d =
       (if now > expiresAt s
        then (reply 400 False ''OTP has expired'', d)
        else if code s \<noteq> the (req_otp rq)
        then (reply 400 False ''Invalid OTP'', d)
        else ((reply 200 True ''OTP verified successfully'')
                \<lparr>token_for := Some (u_id u),
                 res_user := Some (view_of ((mark_verified rq u)\<lparr>u_otp := None\<rparr>))\<rparr>,
              User_save ((mark_verified rq u)\<lparr>u_otp := None\<rparr>) d))"
  by (auto simp add: verify_otp_def well_formed_def Let_def mark_verified_def)

lemma reply_sel [simp]:
  "success (reply st ok msg) = ok" "message (reply st ok msg) = msg" "status (reply st ok msg) = st"
  "otpExpiresIn (reply st ok msg) = None"
  by (simp_all add: reply_def)

lemma verify_otp_outcome:
  assumes "well_formed rq"
  shows "outcome_of (fst (verify_otp now rq d)) =
           Validate_in_order (stored_record rq d) now (the (req_otp rq))"
  using assms verify_app_order [of rq now d] verify_user_order [of rq now d]
  by (simp add: well_formed_def stored_record_def)

lemma malformed_outcome:
  "\<not> well_formed rq \<Longrightarrow> outcome_of (fst (verify_otp now rq d)) = OTHER"
  by (simp add: verify_otp_malformed outcome_of_def)

lemma Validate_MISMATCH:
  "Validate_in_order rec now c = MISMATCH \<Longrightarrow> \<exists>e k. rec = Some (e, k) \<and> now \<le> e \<and> k \<noteq> c"
  by (auto simp: Validate_in_order_def split: option.splits if_splits)

lemma Validate_EXPIRED:
  "Validate_in_order rec now c = EXPIRED \<Longrightarrow> \<exists>e k. rec = Some (e, k) \<and> now > e"
  by (auto simp: Validate_in_order_def split: option.splits if_splits)

lemma Validate_OK:
  "Validate_in_order rec now c = OK \<Longrightarrow> \<exists>e. rec = Some (e, c) \<and> now \<le> e"
  by (auto simp: Validate_in_order_def split: option.splits if_splits)

lemma Validate_NOT_FOUND:
  "Validate_in_order rec now c = NOT_FOUND \<Longrightarrow> rec = None"
  by (auto simp: Validate_in_order_def split: option.splits if_splits)

text \<open>The database after verify-otp, by the outcome.\<close>

lemma verify_otp_db:
  "snd (verify_otp now rq d) =
     (case outcome_of (fst (verify_otp now rq d)) of
        OK \<Rightarrow>
          (if req_purpose rq = Some ''application''
           then OTP_save ((the (OTP_findOne (otp_query rq) d))\<lparr>o_verified := True\<rparr>) d
           else User_save ((mark_verified rq (the (User_findOne (user_query rq) d)))\<lparr>u_otp := None\<rparr>) d)
      | EXPIRED \<Rightarrow>
          (if req_purpose rq = Some ''application''
           then OTP_deleteOne (o_id (the (OTP_findOne (otp_query rq) d))) d
           else d)
      | _ \<Rightarrow> d)"
proof (cases "well_formed rq")
  case False
  then show ?thesis by (simp add: verify_otp_malformed outcome_of_def)
next
  case wf: True
  show ?thesis
  proof (cases "req_purpose rq = Some ''application''")
    case app: True
    show ?thesis
    proof (cases "OTP_findOne (otp_query rq) d")
      case None
      with wf app show ?thesis by (simp add: verify_otp_app_none outcome_of_def)
    next
      case (Some r)
      with wf app show ?thesis by (simp add: verify_otp_app_some outcome_of_def)
    qed
  next
    case usr: False
    show ?thesis
    proof (cases "User_findOne (user_query rq) d")
      case None
      with wf usr show ?thesis
        by (simp add: verify_otp_user_none embedded_lookup_def outcome_of_def)
    next
      case (Some u)
      show ?thesis
      proof (cases "u_otp u")
        case None
        with wf usr Some show ?thesis
          by (simp add: verify_otp_user_none embedded_lookup_def outcome_of_def)
      next
        case (Some s)
        with wf usr \<open>User_findOne (user_query rq) d = Some u\<close> show ?thesis
          by (simp add: verify_otp_user_some outcome_of_def)
      qed
    qed
  qed
qed

lemma query_otp [simp]:
  "otp_query (rq\<lparr>req_otp := c\<rparr>) = otp_query rq"
  "user_query (rq\<lparr>req_otp := c\<rparr>) = user_query rq"
  by (rule ext, simp add: otp_query_def user_query_def)+

lemma stored_record_otp [simp]: "stored_record (rq\<lparr>req_otp := c\<rparr>) d = stored_record rq d"
  by (simp add: stored_record_def standalone_lookup_def)

lemma outcome_success: "success rsp \<longleftrightarrow> outcome_of rsp = OK"
  by (simp add: outcome_of_def)

section \<open>What a failed validation changes\<close>

text \<open>
  C5. A verify-otp attempt of the application flow that finds the standalone record
  expired answers EXPIRED and deletes that record: the collection is one document
  shorter and, identifiers being unique, the record is no longer in it. This is the
  only case in which a failed attempt changes the database. An expired embedded slot
  is answered EXPIRED and stays in place. A MISMATCH leaves the database as it was in
  both shapes, so the same request with the stored code succeeds at any time up to the
  expiry.
\<close>

theorem verify_otp_failure_effects:
  assumes run: "verify_otp now rq d = (rsp, d')"
  shows
   "(well_formed rq \<and> req_purpose rq = Some ''application'' \<longrightarrow>
        (\<forall>r. OTP_findOne (otp_query rq) d = Some r \<and> now > o_expiresAt r \<longrightarrow>
           outcome_of rsp = EXPIRED \<and> d' = OTP_deleteOne (o_id r) d \<and>
           Suc (length (otps d')) = length (otps d) \<and>
           (distinct (map o_id (otps d)) \<longrightarrow> r \<notin> set (otps d')))) \<and>
    (outcome_of rsp = EXPIRED \<and> req_purpose rq = Some ''application'' \<longrightarrow>
        d' \<noteq> d \<and>
        (\<exists>r. OTP_findOne (otp_query rq) d = Some r \<and> now > o_expiresAt r \<and>
             d' = OTP_deleteOne (o_id r) d \<and> Suc (length (otps d')) = length (otps d))) \<and>
    (\<not> success rsp \<and> d' \<noteq> d \<longrightarrow>
        req_purpose rq = Some ''application'' \<and> outcome_of rsp = EXPIRED \<and>
        (\<exists>r. OTP_findOne (otp_query rq) d = Some r \<and> now > o_expiresAt r \<and>
             d' = OTP_deleteOne (o_id r) d \<and> Suc (length (otps d')) = length (otps d))) \<and>
    (outcome_of rsp = EXPIRED \<and> req_purpose rq \<noteq> Some ''application'' \<longrightarrow>
        d' = d \<and> (\<exists>s. embedded_lookup (user_query rq) d' = Some s \<and> now > expiresAt s)) \<and>
    (outcome_of rsp = MISMATCH \<longrightarrow>
        d' = d \<and>
        (\<exists>e c. stored_record rq d' = Some (e, c) \<and> now \<le> e \<and> c \<noteq> the (req_otp rq) \<and>
           (\<forall>now2\<le>e. c \<noteq> [] \<longrightarrow>
              outcome_of (fst (verify_otp now2 (rq\<lparr>req_otp := Some c\<rparr>) d')) = OK)))"
proof -
  from run have rsp: "rsp = fst (verify_otp now rq d)" and d': "d' = snd (verify_otp now rq d)"
    by simp_all
  have wf: "well_formed rq" if "outcome_of rsp \<noteq> OTHER"
    using that malformed_outcome [of rq now d] rsp by blast
  have out: "outcome_of rsp = Validate_in_order (stored_record rq d) now (the (req_otp rq))"
    if "well_formed rq"
    using that verify_otp_outcome rsp by simp
  have found_expired: "outcome_of rsp = EXPIRED \<and> d' = OTP_deleteOne (o_id r) d \<and>
           Suc (length (otps d')) = length (otps d) \<and>
           (distinct (map o_id (otps d)) \<longrightarrow> r \<notin> set (otps d'))"
    if w: "well_formed rq" and app: "req_purpose rq = Some ''application''"
      and r: "OTP_findOne (otp_query rq) d = Some r" and late: "now > o_expiresAt r" for r
  proof -
    from w app r late run have res: "rsp = reply 400 False ''OTP has expired''"
      and del: "d' = OTP_deleteOne (o_id r) d"
      by (simp_all add: verify_otp_app_some)
    from r have mem: "r \<in> set (otps d)" by (simp add: OTP_findOne_def find_SomeD)
    then have len: "Suc (length (remove_first (\<lambda>x. o_id x = o_id r) (otps d))) = length (otps d)"
      by (rule length_remove_first) simp
    have gone: "r \<notin> set (remove_first (\<lambda>x. o_id x = o_id r) (otps d))"
      if "distinct (map o_id (otps d))"
      using that mem by (rule remove_first_gone)
    from res del len gone show ?thesis
      by (simp add: OTP_deleteOne_def outcome_of_def)
  qed
  have deleted: "d' \<noteq> d \<and>
        (\<exists>r. OTP_findOne (otp_query rq) d = Some r \<and> now > o_expiresAt r \<and>
             d' = OTP_deleteOne (o_id r) d \<and> Suc (length (otps d')) = length (otps d))"
    if ex: "outcome_of rsp = EXPIRED" and app: "req_purpose rq = Some ''application''"
  proof -
    from ex have w: "well_formed rq" using wf by simp
    from out [OF w] ex
    have "Validate_in_order (stored_record rq d) now (the (req_otp rq)) = EXPIRED" by simp
    then obtain e k where "stored_record rq d = Some (e, k)" "now > e"
      using Validate_EXPIRED by blast
    with app obtain r where r: "OTP_findOne (otp_query rq) d = Some r"
      and late: "now > o_expiresAt r"
      by (auto simp: stored_record_def standalone_lookup_def)
    from found_expired [OF w app r late]
    have del: "d' = OTP_deleteOne (o_id r) d" and len: "Suc (length (otps d')) = length (otps d)"
      by blast+
    from len have "d' \<noteq> d" by auto
    with r late del len show ?thesis by blast
  qed
  have changed: "req_purpose rq = Some ''application'' \<and> outcome_of rsp = EXPIRED \<and>
        (\<exists>r. OTP_findOne (otp_query rq) d = Some r \<and> now > o_expiresAt r \<and>
             d' = OTP_deleteOne (o_id r) d \<and> Suc (length (otps d')) = length (otps d))"
    if fail: "\<not> success rsp" and ch: "d' \<noteq> d"
  proof -
    from fail have nok: "outcome_of rsp \<noteq> OK" by (simp add: outcome_success)
    from ch nok have ex: "outcome_of rsp = EXPIRED" and app: "req_purpose rq = Some ''application''"
      using verify_otp_db [of now rq d] rsp d'
      by (cases "outcome_of rsp"; simp split: if_splits)+
    with deleted show ?thesis by blast
  qed
  have embedded: "d' = d \<and> (\<exists>s. embedded_lookup (user_query rq) d' = Some s \<and> now > expiresAt s)"
    if ex: "outcome_of rsp = EXPIRED" and usr: "req_purpose rq \<noteq> Some ''application''"
  proof -
    from ex have w: "well_formed rq" using wf by simp
    from ex usr have same: "d' = d" using verify_otp_db [of now rq d] rsp d' by simp
    from out [OF w] ex
    have "Validate_in_order (stored_record rq d) now (the (req_otp rq)) = EXPIRED" by simp
    then obtain e k where "stored_record rq d = Some (e, k)" "now > e"
      using Validate_EXPIRED by blast
    with usr same show ?thesis
      by (auto simp: stored_record_def)
  qed
  have mismatch: "d' = d \<and>
        (\<exists>e c. stored_record rq d' = Some (e, c) \<and> now \<le> e \<and> c \<noteq> the (req_otp rq) \<and>
           (\<forall>now2\<le>e. c \<noteq> [] \<longrightarrow>
              outcome_of (fst (verify_otp now2 (rq\<lparr>req_otp := Some c\<rparr>) d')) = OK))"
    if mm: "outcome_of rsp = MISMATCH"
  proof -
    from mm have w: "well_formed rq" using wf by simp
    from mm have same: "d' = d" using verify_otp_db [of now rq d] rsp d' by simp
    from out [OF w] mm
    have "Validate_in_order (stored_record rq d) now (the (req_otp rq)) = MISMATCH" by simp
    then obtain e c where st: "stored_record rq d = Some (e, c)"
      and le: "now \<le> e" and ne: "c \<noteq> the (req_otp rq)"
      using Validate_MISMATCH by blast
    have "outcome_of (fst (verify_otp now2 (rq\<lparr>req_otp := Some c\<rparr>) d)) = OK"
      if "now2 \<le> e" "c \<noteq> []" for now2
    proof -
      from w that have "well_formed (rq\<lparr>req_otp := Some c\<rparr>)"
        by (simp add: well_formed_def)
      from verify_otp_outcome [OF this, of now2 d] st that show ?thesis
        by (simp add: Validate_in_order_def)
    qed
    with same st le ne show ?thesis by auto
  qed
  from found_expired deleted changed embedded mismatch show ?thesis by blast
qed

lemma verify_req_otp [simp]: "(verify_req c p)\<lparr>req_otp := Some c'\<rparr> = verify_req c' p"
  by (simp add: verify_req_def)

lemma verify_req_wf [simp]: "well_formed (verify_req c p) = (c \<noteq> [])"
  by (simp add: well_formed_def)

lemma db_app_find [simp]:
  "OTP_findOne (otp_query (verify_req c p)) db_app = Some pending"
  by (simp add: OTP_findOne_def otp_query_def db_app_def pending_def)

lemma pending_sel [simp]:
  "o_id pending = 0" "o_code pending = ''654321''" "o_expiresAt pending = 1000"
  by (simp_all add: pending_def)

lemma db_app_stored [simp]:
  "stored_record (verify_req c ''application'') db_app = Some (1000, ''654321'')"
  by (simp add: stored_record_def standalone_lookup_def)

lemma db_ann_stored [simp]:
  "stored_record (verify_req c ''login'') db_ann = Some (1000, ''123456'')"
  by (simp add: stored_record_def ann_lookup ann_slot)

theorem verify_otp_failure_effects_witness:
  "outcome_of (fst (verify_otp 2000 (verify_req ''654321'' ''application'') db_app)) = EXPIRED \<and>
   snd (verify_otp 2000 (verify_req ''654321'' ''application'') db_app) = db_app\<lparr>otps := []\<rparr> \<and>
   pending \<notin> set (otps (snd (verify_otp 2000 (verify_req ''654321'' ''application'') db_app))) \<and>
   outcome_of (fst (verify_otp 2000 (verify_req ''123456'' ''login'') db_ann)) = EXPIRED \<and>
   snd (verify_otp 2000 (verify_req ''123456'' ''login'') db_ann) = db_ann \<and>
   outcome_of (fst (verify_otp 500 (verify_req ''000000'' ''application'') db_app)) = MISMATCH \<and>
   snd (verify_otp 500 (verify_req ''000000'' ''application'') db_app) = db_app \<and>
   outcome_of (fst (verify_otp 1000 (verify_req ''654321'' ''application'')
      (snd (verify_otp 500 (verify_req ''000000'' ''application'') db_app)))) = OK"
proof -
  let ?late = "verify_otp 2000 (verify_req ''654321'' ''application'') db_app"
  let ?user = "verify_otp 2000 (verify_req ''123456'' ''login'') db_ann"
  let ?wrong = "verify_otp 500 (verify_req ''000000'' ''application'') db_app"
  have o2: "outcome_of (fst ?user) = EXPIRED" by (simp add: verify_otp_outcome Validate_in_order_def)
  have o3: "outcome_of (fst ?wrong) = MISMATCH" by (simp add: verify_otp_outcome Validate_in_order_def)
  have r1: "?late = (fst ?late, snd ?late)" and r2: "?user = (fst ?user, snd ?user)"
    and r3: "?wrong = (fst ?wrong, snd ?wrong)" by simp_all
  note t1 = verify_otp_failure_effects [OF r1]
  note t2 = verify_otp_failure_effects [OF r2]
  note t3 = verify_otp_failure_effects [OF r3]
  have wf: "well_formed (verify_req ''654321'' ''application'')"
    and app: "req_purpose (verify_req ''654321'' ''application'') = Some ''application''"
    and found: "OTP_findOne (otp_query (verify_req ''654321'' ''application'')) db_app = Some pending"
    and late: "o_expiresAt pending < 2000"
    by simp_all
  have dist: "distinct (map o_id (otps db_app))" by (simp add: db_app_def)
  from t1 [THEN conjunct1, rule_format, of pending] wf app found late dist
  have o1: "outcome_of (fst ?late) = EXPIRED" and a: "snd ?late = OTP_deleteOne (o_id pending) db_app"
    and gone: "pending \<notin> set (otps (snd ?late))"
    by blast+
  have a': "OTP_deleteOne (o_id pending) db_app = db_app\<lparr>otps := []\<rparr>"
    by (simp add: OTP_deleteOne_def db_app_def pending_def)
  from t2 o2 have b: "snd ?user = db_ann" by simp
  from t3 o3 obtain e k where c: "snd ?wrong = db_app"
    and st: "stored_record (verify_req ''000000'' ''application'') (snd ?wrong) = Some (e, k)"
    and again: "\<forall>now2\<le>e. k \<noteq> [] \<longrightarrow>
       outcome_of (fst (verify_otp now2 ((verify_req ''000000'' ''application'')\<lparr>req_otp := Some k\<rparr>)
         (snd ?wrong))) = OK"
    by blast
  from st have "e = 1000" "k = ''654321''" by (simp_all add: c)
  with again have d: "outcome_of (fst (verify_otp 1000 (verify_req ''654321'' ''application'') (snd ?wrong))) = OK"
    by simp
  from o1 a a' gone o2 b o3 c d show ?thesis by simp
qed

section \<open>Verify-otp and the stored purpose\<close>

text \<open>
  C1 asks that a correct code supplied under a purpose other than the one it was issued
  for is answered NOT_FOUND, with the slot and the flags untouched. The user-based flow
  of verify-otp never reads the stored purpose: whatever purpose \<open>p\<close> the slot carries,
  a request of any purpose other than application that supplies the stored code before
  the expiry gets the success response with a token, and the user is saved with the
  slot cleared and the flags set as the request's purpose says.
\<close>

theorem verify_otp_never_reads_stored_purpose:
  assumes "well_formed rq" and "req_purpose rq \<noteq> Some ''application''"
    and "User_findOne (user_query rq) d = Some u"
    and "u_otp u = Some \<lparr>code = c, expiresAt = e, purpose = p\<rparr>"
    and "now \<le> e" and "req_otp rq = Some c"
  shows "verify_otp now rq d =
           ((reply 200 True ''OTP verified successfully'')
              \<lparr>token_for := Some (u_id u),
               res_user := Some (view_of ((mark_verified rq u)\<lparr>u_otp := None\<rparr>))\<rparr>,
            User_save ((mark_verified rq u)\<lparr>u_otp := None\<rparr>) d)"
  using assms by (simp add: verify_otp_user_some)

theorem verify_otp_never_reads_stored_purpose_witness:
  "u_otp ann = Some \<lparr>code = ''123456'', expiresAt = 1000, purpose = ''password_reset''\<rparr> \<and>
   outcome_of (fst (verify_otp 500 (verify_req ''123456'' ''email'') db_ann)) = OK \<and>
   snd (verify_otp 500 (verify_req ''123456'' ''email'') db_ann) =
     db_ann\<lparr>users := [ann\<lparr>u_verified_email := True, u_otp := None\<rparr>]\<rparr>"
proof -
  have wf: "well_formed (verify_req ''123456'' ''email'')" by simp
  have np: "req_purpose (verify_req ''123456'' ''email'') \<noteq> Some ''application''" by simp
  have found: "User_findOne (user_query (verify_req ''123456'' ''email'')) db_ann = Some ann"
    by (simp add: User_findOne_def user_query_def db_ann_def ann_def)
  have c: "req_otp (verify_req ''123456'' ''email'') = Some ''123456''" by simp
  have le: "(500::int) \<le> 1000" by simp
  note run = verify_otp_never_reads_stored_purpose [OF wf np found ann_slot le c]
  have mv: "mark_verified (verify_req ''123456'' ''email'') ann = ann\<lparr>u_verified_email := True\<rparr>"
    by (simp add: mark_verified_def)
  have id: "u_id ann = 1" by (simp add: ann_def)
  have sv: "User_save (ann\<lparr>u_verified_email := True, u_otp := None\<rparr>) db_ann =
              db_ann\<lparr>users := [ann\<lparr>u_verified_email := True, u_otp := None\<rparr>]\<rparr>"
    by (simp add: User_save_def db_ann_def)
  from run show ?thesis
    by (simp add: ann_slot outcome_of_def mv id sv)
qed

section \<open>The record after a successful validation\<close>

lemma replace_first_mem: "x \<in> set xs \<Longrightarrow> P x \<Longrightarrow> y \<in> set (replace_first P y xs)"
  by (induction xs) auto

lemma mark_verified_sel [simp]:
  "u_id (mark_verified rq u) = u_id u" "u_email (mark_verified rq u) = u_email u"
  "u_phone (mark_verified rq u) = u_phone u" "u_otp (mark_verified rq u) = u_otp u"
  "u_password (mark_verified rq u) = u_password u"
  by (simp_all add: mark_verified_def Let_def)

lemma user_query_cong:
  "u_email v = u_email u \<Longrightarrow> u_phone v = u_phone u \<Longrightarrow> user_query rq v = user_query rq u"
  by (simp add: user_query_def)

lemma otp_query_same_subject:
  assumes "well_formed rq" "otp_query rq r" "otp_query rq z"
  shows "same_subject r z"
proof (cases "truthy (req_email rq)")
  case True
  then obtain e where "req_email rq = Some e" by (cases "req_email rq") simp_all
  with True assms(2,3) show ?thesis by (simp add: otp_query_def same_subject_def)
next
  case False
  with assms(1) have "truthy (req_phone rq)" by (simp add: well_formed_def)
  then obtain p where "req_phone rq = Some p" by (cases "req_phone rq") simp_all
  with False assms(2,3) show ?thesis by (simp add: otp_query_def same_subject_def)
qed

lemma standalone_consumed:
  assumes inv: "store_ok d" and wf: "well_formed rq"
    and found: "OTP_findOne (otp_query rq) d = Some r"
  shows "OTP_findOne (otp_query rq) (OTP_save (r\<lparr>o_verified := True\<rparr>) d) = None"
proof -
  let ?r' = "r\<lparr>o_verified := True\<rparr>"
  from found have q: "otp_query rq r" and mem: "r \<in> set (otps d)"
    by (simp_all add: OTP_findOne_def find_SomeD)
  have "\<not> otp_query rq z"
    if z: "z \<in> set (replace_first (\<lambda>x. o_id x = o_id r) ?r' (otps d))" for z
  proof
    assume qz: "otp_query rq z"
    from inv have "distinct (map o_id (otps d))" by (simp add: store_ok_def)
    from set_replace_first [OF this z] have "z = ?r' \<or> (z \<in> set (otps d) \<and> o_id z \<noteq> o_id r)" .
    then show False
    proof
      assume "z = ?r'"
      with qz show False by (simp add: otp_query_def)
    next
      assume old: "z \<in> set (otps d) \<and> o_id z \<noteq> o_id r"
      from otp_query_same_subject [OF wf q qz] have "same_subject r z" .
      with inv mem old have "r = z" by (simp add: store_ok_def)
      with old show False by simp
    qed
  qed
  then show ?thesis
    by (simp add: OTP_findOne_def OTP_save_def find_None_iff)
qed

lemma embedded_consumed:
  assumes inv: "store_ok d" and found: "User_findOne (user_query rq) d = Some u"
  shows "User_findOne (user_query rq) (User_save ((mark_verified rq u)\<lparr>u_otp := None\<rparr>) d) =
           Some ((mark_verified rq u)\<lparr>u_otp := None\<rparr>)"
proof -
  let ?u' = "(mark_verified rq u)\<lparr>u_otp := None\<rparr>"
  from found have q: "user_query rq u" by (simp add: User_findOne_def find_SomeD)
  have q': "user_query rq ?u'" using q by (simp add: user_query_def)
  from inv have dist: "distinct (map u_id (users d))" by (simp add: store_ok_def)
  have "find (user_query rq) (replace_first (\<lambda>z. u_id z = u_id u) ?u' (users d)) = Some ?u'"
    using dist found q' by (intro find_replace_first_same) (simp_all add: User_findOne_def)
  then show ?thesis by (simp add: User_findOne_def User_save_def)
qed

section \<open>The cases of send-otp and forgot-password\<close>

lemma expiry_ms: "expiry now = now + 600000"
  by (simp add: expiry_def)

lemma forgot_password_db:
  "truthy (req_email rq) \<Longrightarrow> User_findOne (\<lambda>u. u_email u = the (req_email rq)) d = Some u \<Longrightarrow>
   fst (snd (forgot_password cx rq d m)) =
     User_save (u\<lparr>u_otp := Some \<lparr>code = c_otp cx, expiresAt = c_now cx + 600000,
                                    purpose = ''password_reset''\<rparr>\<rparr>) d"
  by (simp add: forgot_password_def Let_def split_def expiry_ms)

lemma send_otp_app_email:
  assumes "req_purpose rq = Some ''application''" "truthy (req_email rq)"
  shows "send_otp cx rq d m =
     (if \<not> r_success (fst (deliver cx rq ''application'' m))
      then (reply 500 False
              (orElse (r_error (fst (deliver cx rq ''application'' m))) ''Failed to send OTP email.'' @
               (if truthy (r_hint (fst (deliver cx rq ''application'' m)))
                then '' '' @ the (r_hint (fst (deliver cx rq ''application'' m))) else [])))
             \<lparr>res_smtpErrorCode := r_code (fst (deliver cx rq ''application'' m)),
              res_smtpConfig := r_config (fst (deliver cx rq ''application'' m)),
              devOtp := dev_otp (c_env cx) (c_otp cx)\<rparr>
      else (reply 200 True ''OTP sent successfully to your email address. Please check your inbox.'')
             \<lparr>otpExpiresIn := Some 600, devOtp := dev_otp (c_env cx) (c_otp cx)\<rparr>,
      OTP_create (req_email rq) None (c_otp cx) ''application'' (c_now cx + 600000)
        (OTP_deleteMany (\<lambda>r. o_email r = req_email rq \<and> o_purpose r = ''application'') d),
      snd (deliver cx rq ''application'' m))"
  using assms by (simp add: send_otp_def Let_def split_def expiry_ms deliver_def)

lemma send_otp_app_phone:
  assumes "req_purpose rq = Some ''application''" "\<not> truthy (req_email rq)" "truthy (req_phone rq)"
  shows "send_otp cx rq d m =
     ((reply 200 True ''OTP sent successfully'')
         \<lparr>otpExpiresIn := Some 600, devOtp := dev_otp (c_env cx) (c_otp cx)\<rparr>,
      OTP_create None (req_phone rq) (c_otp cx) ''application'' (c_now cx + 600000)
        (OTP_deleteMany (\<lambda>r. o_phone r = req_phone rq \<and> o_purpose r = ''application'') d),
      m)"
  using assms by (simp add: send_otp_def Let_def expiry_ms)

lemma send_otp_app_nobody:
  assumes "req_purpose rq = Some ''application''" "\<not> truthy (req_email rq)" "\<not> truthy (req_phone rq)"
  shows "send_otp cx rq d m =
     (reply 400 False ''Please provide email or phone for application OTP'', d, m)"
  using assms by (simp add: send_otp_def Let_def)

lemma send_otp_user_404:
  assumes "req_purpose rq \<noteq> Some ''application''" "req_purpose rq \<noteq> Some ''login''"
    "truthy (req_email rq) \<or> truthy (req_phone rq)" "issue_user rq d = None"
  shows "send_otp cx rq d m = (reply 404 False ''User not found'', d, m)"
  using assms by (auto simp add: send_otp_def Let_def issue_user_def)

lemma send_otp_user_email:
  assumes "req_purpose rq \<noteq> Some ''application''" "truthy (req_email rq)"
    "issue_user rq d \<noteq> None \<or> req_purpose rq = Some ''login''"
  shows "send_otp cx rq d m =
     (if \<not> r_success (fst (deliver cx rq (orElse (req_purpose rq) ''verification'') m))
      then (reply 500 False ''Failed to send OTP email'')
             \<lparr>res_error := r_error (fst (deliver cx rq (orElse (req_purpose rq) ''verification'') m)),
              res_code := r_code (fst (deliver cx rq (orElse (req_purpose rq) ''verification'') m))\<rparr>
      else (reply 200 True ''OTP sent successfully'')
             \<lparr>otpExpiresIn := Some 600, devOtp := dev_otp (c_env cx) (c_otp cx)\<rparr>,
      issued cx rq d,
      snd (deliver cx rq (orElse (req_purpose rq) ''verification'') m))"
  using assms
  by (auto simp add: send_otp_def Let_def split_def issue_user_def issued_def deliver_def expiry_ms)

lemma send_otp_user_no_email:
  assumes "req_purpose rq \<noteq> Some ''application''" "\<not> truthy (req_email rq)"
    "issue_user rq d \<noteq> None \<or> req_purpose rq = Some ''login'' \<or> \<not> truthy (req_phone rq)"
  shows "send_otp cx rq d m =
     ((reply 200 True ''OTP sent successfully'')
         \<lparr>otpExpiresIn := Some 600, devOtp := dev_otp (c_env cx) (c_otp cx)\<rparr>,
      issued cx rq d, m)"
  using assms
  by (auto simp add: send_otp_def Let_def issue_user_def issued_def expiry_ms)

lemma send_otp_cases [case_names app_email app_phone app_nobody user_404 user_email user_no_email]:
  assumes "req_purpose rq = Some ''application'' \<Longrightarrow> truthy (req_email rq) \<Longrightarrow> P"
    "req_purpose rq = Some ''application'' \<Longrightarrow> \<not> truthy (req_email rq) \<Longrightarrow> truthy (req_phone rq) \<Longrightarrow> P"
    "req_purpose rq = Some ''application'' \<Longrightarrow> \<not> truthy (req_email rq) \<Longrightarrow> \<not> truthy (req_phone rq) \<Longrightarrow> P"
    "req_purpose rq \<noteq> Some ''application'' \<Longrightarrow> req_purpose rq \<noteq> Some ''login'' \<Longrightarrow>
       truthy (req_email rq) \<or> truthy (req_phone rq) \<Longrightarrow> issue_user rq d = None \<Longrightarrow> P"
    "req_purpose rq \<noteq> Some ''application'' \<Longrightarrow> truthy (req_email rq) \<Longrightarrow>
       issue_user rq d \<noteq> None \<or> req_purpose rq = Some ''login'' \<Longrightarrow> P"
    "req_purpose rq \<noteq> Some ''application'' \<Longrightarrow> \<not> truthy (req_email rq) \<Longrightarrow>
       issue_user rq d \<noteq> None \<or> req_purpose rq = Some ''login'' \<or> \<not> truthy (req_phone rq) \<Longrightarrow> P"
  shows P
  using assms by blast

lemma send_otp_success_600:
  "success (fst (send_otp cx rq d m)) \<Longrightarrow>
     otpExpiresIn (fst (send_otp cx rq d m)) = Some 600 \<and> status (fst (send_otp cx rq d m)) = 200"
proof (cases rule: send_otp_cases [where rq = rq and d = d])
  case app_email
  then show "success (fst (send_otp cx rq d m)) \<Longrightarrow> ?thesis"
    by (simp add: send_otp_app_email reply_def split: if_splits)
next
  case app_phone
  then show "success (fst (send_otp cx rq d m)) \<Longrightarrow> ?thesis"
    by (simp add: send_otp_app_phone reply_def)
next
  case app_nobody
  then show "success (fst (send_otp cx rq d m)) \<Longrightarrow> ?thesis"
    by (simp add: send_otp_app_nobody)
next
  case user_404
  then show "success (fst (send_otp cx rq d m)) \<Longrightarrow> ?thesis"
    by (simp add: send_otp_user_404)
next
  case user_email
  then show "success (fst (send_otp cx rq d m)) \<Longrightarrow> ?thesis"
    by (simp add: send_otp_user_email reply_def split: if_splits)
next
  case user_no_email
  then show "success (fst (send_otp cx rq d m)) \<Longrightarrow> ?thesis"
    by (simp add: send_otp_user_no_email reply_def)
qed

lemma send_otp_user_db:
  assumes "req_purpose rq \<noteq> Some ''application''" "issue_user rq d = Some u"
  shows "fst (snd (send_otp cx rq d m)) = issued cx rq d"
proof (cases "truthy (req_email rq)")
  case True
  with assms show ?thesis by (simp add: send_otp_user_email)
next
  case False
  with assms show ?thesis by (simp add: send_otp_user_no_email)
qed

lemma issue_user_mem: "issue_user rq d = Some u \<Longrightarrow> u \<in> set (users d)"
  by (auto simp: issue_user_def User_findOne_def dest: find_SomeD split: if_splits)

lemma User_save_mem: "u \<in> set (users d) \<Longrightarrow> u_id v = u_id u \<Longrightarrow> v \<in> set (users (User_save v d))"
  by (simp add: User_save_def replace_first_mem)

lemma send_otp_app_db:
  assumes "req_purpose rq = Some ''application''" "truthy (req_email rq) \<or> truthy (req_phone rq)"
  shows "fst (snd (send_otp cx rq d m)) =
           OTP_create (if truthy (req_email rq) then req_email rq else None)
             (if truthy (req_email rq) then None else req_phone rq)
             (c_otp cx) ''application'' (c_now cx + 600000)
             (OTP_deleteMany (\<lambda>r. (if truthy (req_email rq) then o_email r = req_email rq
                                    else o_phone r = req_phone rq) \<and> o_purpose r = ''application'') d)"
proof (cases "truthy (req_email rq)")
  case True
  with assms show ?thesis by (simp add: send_otp_app_email)
next
  case False
  with assms show ?thesis by (simp add: send_otp_app_phone)
qed

section \<open>Ten minutes\<close>

text \<open>
  C7. Every record an issue stores expires ten minutes (600000 ms) after the time of
  the request: the slot forgot-password saves for the user it found, the standalone
  record send-otp appends in the application flow, and the slot send-otp saves in the
  user-based flow. Every success response of send-otp carries \<open>otpExpiresIn = 600\<close>.
\<close>

theorem issue_expires_in_ten_minutes:
  "(truthy (req_email rq) \<and> User_findOne (\<lambda>u. u_email u = the (req_email rq)) d = Some u \<longrightarrow>
      fst (snd (forgot_password cx rq d m)) =
        User_save (u\<lparr>u_otp := Some \<lparr>code = c_otp cx, expiresAt = c_now cx + 600000,
                                       purpose = ''password_reset''\<rparr>\<rparr>) d \<and>
      u\<lparr>u_otp := Some \<lparr>code = c_otp cx, expiresAt = c_now cx + 600000,
                          purpose = ''password_reset''\<rparr>\<rparr>
        \<in> set (users (fst (snd (forgot_password cx rq d m))))) \<and>
   (req_purpose rq = Some ''application'' \<and> (truthy (req_email rq) \<or> truthy (req_phone rq)) \<longrightarrow>
      (\<exists>old r. otps (fst (snd (send_otp cx rq d m))) = old @ [r] \<and> set old \<subseteq> set (otps d) \<and>
          o_code r = c_otp cx \<and> o_purpose r = ''application'' \<and>
          o_expiresAt r = c_now cx + 600000)) \<and>
   (req_purpose rq \<noteq> Some ''application'' \<and> issue_user rq d = Some u \<longrightarrow>
      fst (snd (send_otp cx rq d m)) =
        User_save (u\<lparr>u_otp := Some \<lparr>code = c_otp cx, expiresAt = c_now cx + 600000,
                          purpose = orElse (req_purpose rq) ''verification''\<rparr>\<rparr>) d \<and>
      u\<lparr>u_otp := Some \<lparr>code = c_otp cx, expiresAt = c_now cx + 600000,
                          purpose = orElse (req_purpose rq) ''verification''\<rparr>\<rparr>
        \<in> set (users (fst (snd (send_otp cx rq d m))))) \<and>
   (success (fst (send_otp cx rq d m)) \<longrightarrow>
      otpExpiresIn (fst (send_otp cx rq d m)) = Some 600)"
proof (intro conjI impI)
  assume a: "truthy (req_email rq) \<and> User_findOne (\<lambda>u. u_email u = the (req_email rq)) d = Some u"
  then show "fst (snd (forgot_password cx rq d m)) =
        User_save (u\<lparr>u_otp := Some \<lparr>code = c_otp cx, expiresAt = c_now cx + 600000,
                                       purpose = ''password_reset''\<rparr>\<rparr>) d"
    by (simp add: forgot_password_db)
  from a have "u \<in> set (users d)" by (auto simp: User_findOne_def dest: find_SomeD)
  with a show "u\<lparr>u_otp := Some \<lparr>code = c_otp cx, expiresAt = c_now cx + 600000,
                          purpose = ''password_reset''\<rparr>\<rparr>
        \<in> set (users (fst (snd (forgot_password cx rq d m))))"
    by (simp add: forgot_password_db User_save_mem)
next
  assume "req_purpose rq = Some ''application'' \<and> (truthy (req_email rq) \<or> truthy (req_phone rq))"
  then show "\<exists>old r. otps (fst (snd (send_otp cx rq d m))) = old @ [r] \<and> set old \<subseteq> set (otps d) \<and>
          o_code r = c_otp cx \<and> o_purpose r = ''application'' \<and>
          o_expiresAt r = c_now cx + 600000"
    by (auto simp: send_otp_app_db OTP_create_def OTP_deleteMany_def)
next
  assume a: "req_purpose rq \<noteq> Some ''application'' \<and> issue_user rq d = Some u"
  then show "fst (snd (send_otp cx rq d m)) =
        User_save (u\<lparr>u_otp := Some \<lparr>code = c_otp cx, expiresAt = c_now cx + 600000,
                          purpose = orElse (req_purpose rq) ''verification''\<rparr>\<rparr>) d"
    by (simp add: send_otp_user_db issued_def)
  from a have "u \<in> set (users d)" by (auto dest: issue_user_mem)
  with a show "u\<lparr>u_otp := Some \<lparr>code = c_otp cx, expiresAt = c_now cx + 600000,
                          purpose = orElse (req_purpose rq) ''verification''\<rparr>\<rparr>
        \<in> set (users (fst (snd (send_otp cx rq d m))))"
    by (simp add: send_otp_user_db issued_def User_save_mem)
next
  assume "success (fst (send_otp cx rq d m))"
  then show "otpExpiresIn (fst (send_otp cx rq d m)) = Some 600"
    by (simp add: send_otp_success_600)
qed

lemma cx0_sel [simp]: "c_now cx0 = 5000" "c_otp cx0 = ''111111''" "c_env cx0 = env_ok"
  "c_smtp cx0 = Accepted ''msg-1''" "c_Number cx0 = Number_digits"
  by (simp_all add: cx0_def)

lemma phone_req_sel [simp]:
  "req_email (phone_req c p) = None" "req_phone (phone_req c p) = Some ''5550001''"
  "req_otp (phone_req c p) = Some c" "req_purpose (phone_req c p) = Some p"
  by (simp_all add: phone_req_def)

lemma ann_found [simp]:
  "User_findOne (\<lambda>u. u_email u = ''a@x.com'') db_ann = Some ann"
  "User_findOne (\<lambda>u. u_phone u = ''5550001'') db_ann = Some ann"
  by (simp_all add: User_findOne_def db_ann_def ann_def)

lemma save_ann [simp]: "u_id v = 1 \<Longrightarrow> User_save v db_ann = db_ann\<lparr>users := [v]\<rparr>"
  by (simp add: User_save_def db_ann_def ann_def)

theorem issue_expires_in_ten_minutes_witness:
  "map u_otp (users (fst (snd (forgot_password cx0 (reset_req ''000000'') db_ann mailer0)))) =
     [Some \<lparr>code = ''111111'', expiresAt = 605000, purpose = ''password_reset''\<rparr>] \<and>
   o_expiresAt (last (otps (fst (snd (send_otp cx0 (phone_req ''000000'' ''application'') db_app mailer0))))) =
     605000 \<and>
   map u_otp (users (fst (snd (send_otp cx0 (phone_req ''000000'' ''phone'') db_ann mailer0)))) =
     [Some \<lparr>code = ''111111'', expiresAt = 605000, purpose = ''phone''\<rparr>] \<and>
   success (fst (send_otp cx0 (phone_req ''000000'' ''phone'') db_ann mailer0)) \<and>
   otpExpiresIn (fst (send_otp cx0 (phone_req ''000000'' ''phone'') db_ann mailer0)) = Some 600"
proof -
  note forgot = issue_expires_in_ten_minutes
    [where rq = "reset_req ''000000''" and d = db_ann and u = ann and cx = cx0 and m = mailer0]
  note app = issue_expires_in_ten_minutes
    [where rq = "phone_req ''000000'' ''application''" and d = db_app and u = ann and cx = cx0
       and m = mailer0]
  note usr = issue_expires_in_ten_minutes
    [where rq = "phone_req ''000000'' ''phone''" and d = db_ann and u = ann and cx = cx0
       and m = mailer0]
  have id: "u_id ann = 1" by (simp add: ann_def)
  from forgot have a: "map u_otp (users (fst (snd (forgot_password cx0 (reset_req ''000000'') db_ann mailer0)))) =
     [Some \<lparr>code = ''111111'', expiresAt = 605000, purpose = ''password_reset''\<rparr>]"
    by (simp add: id)
  from app obtain old r where
    "otps (fst (snd (send_otp cx0 (phone_req ''000000'' ''application'') db_app mailer0))) = old @ [r]"
    "o_expiresAt r = 605000"
    by auto
  then have b: "o_expiresAt (last (otps (fst (snd (send_otp cx0 (phone_req ''000000'' ''application'') db_app mailer0))))) = 605000"
    by simp
  have iu: "issue_user (phone_req ''000000'' ''phone'') db_ann = Some ann"
    by (simp add: issue_user_def)
  from usr iu have c: "map u_otp (users (fst (snd (send_otp cx0 (phone_req ''000000'' ''phone'') db_ann mailer0)))) =
     [Some \<lparr>code = ''111111'', expiresAt = 605000, purpose = ''phone''\<rparr>]"
    by (simp add: id orElse_def)
  have ok: "success (fst (send_otp cx0 (phone_req ''000000'' ''phone'') db_ann mailer0))"
    by (simp add: send_otp_user_no_email iu)
  with usr have d: "otpExpiresIn (fst (send_otp cx0 (phone_req ''000000'' ''phone'') db_ann mailer0)) = Some 600"
    by blast
  from a b c ok d show ?thesis by blast
qed

section \<open>A new application code replaces the old one\<close>

lemma find_unique:
  "filter S xs = [x] \<Longrightarrow> Q x \<Longrightarrow> (\<And>y. Q y \<Longrightarrow> S y) \<Longrightarrow> find Q xs = Some x"
proof (induction xs)
  case Nil
  then show ?case by simp
next
  case (Cons a xs)
  show ?case
  proof (cases "S a")
    case True
    with Cons.prems(1) have "a = x" by simp
    with Cons.prems(2) show ?thesis by simp
  next
    case False
    with Cons.prems(3) have "\<not> Q a" by blast
    with False Cons show ?thesis by simp
  qed
qed

lemma subject_records_eq: "subject_records rq d = filter (is_subject rq) (otps d)"
  by (simp add: subject_records_def)

lemma send_otp_app_otps:
  assumes "req_purpose rq = Some ''application''" "truthy (req_email rq) \<or> truthy (req_phone rq)"
  shows "otps (fst (snd (send_otp cx rq d m))) =
           filter (\<lambda>r. \<not> is_subject rq r) (otps d) @
           [\<lparr>o_id = next_oid d,
             o_email = (if truthy (req_email rq) then req_email rq else None),
             o_phone = (if truthy (req_email rq) then None else req_phone rq),
             o_code = c_otp cx, o_purpose = ''application'',
             o_expiresAt = c_now cx + 600000, o_verified = False\<rparr>]"
proof -
  have "(\<lambda>r. \<not> ((if truthy (req_email rq) then o_email r = req_email rq
                                    else o_phone r = req_phone rq) \<and> o_purpose r = ''application''))
        = (\<lambda>r. \<not> is_subject rq r)"
    by (rule ext) (auto simp: is_subject_def)
  with assms show ?thesis
    by (simp add: send_otp_app_db OTP_create_def OTP_deleteMany_def)
qed

lemma send_otp_app_subject:
  assumes "req_purpose rq = Some ''application''" "truthy (req_email rq) \<or> truthy (req_phone rq)"
  shows "subject_records rq (fst (snd (send_otp cx rq d m))) =
           [\<lparr>o_id = next_oid d,
             o_email = (if truthy (req_email rq) then req_email rq else None),
             o_phone = (if truthy (req_email rq) then None else req_phone rq),
             o_code = c_otp cx, o_purpose = ''application'',
             o_expiresAt = c_now cx + 600000, o_verified = False\<rparr>]"
  using assms
  by (simp add: subject_records_eq send_otp_app_otps) (simp add: is_subject_def)

lemma verify_after_issue:
  assumes app: "req_purpose rq = Some ''application''"
    and sub: "truthy (req_email rq) \<or> truthy (req_phone rq)"
    and c: "c \<noteq> []"
  shows "outcome_of (fst (verify_otp now (rq\<lparr>req_otp := Some c\<rparr>) (fst (snd (send_otp cx rq d m))))) =
           Validate_in_order (Some (c_now cx + 600000, c_otp cx)) now c"
proof -
  let ?d = "fst (snd (send_otp cx rq d m))"
  let ?new = "\<lparr>o_id = next_oid d,
             o_email = (if truthy (req_email rq) then req_email rq else None),
             o_phone = (if truthy (req_email rq) then None else req_phone rq),
             o_code = c_otp cx, o_purpose = ''application'',
             o_expiresAt = c_now cx + 600000, o_verified = False\<rparr>"
  have "filter (is_subject rq) (otps ?d) = [?new]"
    using send_otp_app_subject [OF app sub] by (simp add: subject_records_eq)
  moreover have "otp_query rq ?new" by (simp add: otp_query_def)
  moreover have "is_subject rq y" if "otp_query rq y" for y
    using that by (simp add: otp_query_def is_subject_def)
  ultimately have "find (otp_query rq) (otps ?d) = Some ?new" by (rule find_unique)
  then have st: "stored_record (rq\<lparr>req_otp := Some c\<rparr>) ?d = Some (c_now cx + 600000, c_otp cx)"
    using app by (simp add: stored_record_def standalone_lookup_def OTP_findOne_def)
  from sub c have "well_formed (rq\<lparr>req_otp := Some c\<rparr>)" by (simp add: well_formed_def)
  from verify_otp_outcome [OF this, of now ?d] st show ?thesis by simp
qed

text \<open>
  C3, as amended. After two send-otp requests of purpose application for the same
  subject, whatever the store was before, there is exactly one application record for
  that subject: the one of the second request, unverified and not yet expired at the
  time of that request. When the second code differs from the first, validating with
  the first code does not return OK.
\<close>

theorem send_otp_application_supersedes:
  assumes app: "req_purpose rq = Some ''application''"
    and sub: "truthy (req_email rq) \<or> truthy (req_phone rq)"
    and d1: "d1 = fst (snd (send_otp cxa rq d m))"
    and d2: "d2 = fst (snd (send_otp cxb rq d1 m'))"
  shows "(\<exists>r. subject_records rq d2 = [r] \<and> o_code r = c_otp cxb \<and> \<not> o_verified r \<and>
              c_now cxb < o_expiresAt r) \<and>
         (c_otp cxa \<noteq> c_otp cxb \<longrightarrow>
            outcome_of (fst (verify_otp now (rq\<lparr>req_otp := Some (c_otp cxa)\<rparr>) d2)) \<noteq> OK)"
proof
  show "\<exists>r. subject_records rq d2 = [r] \<and> o_code r = c_otp cxb \<and> \<not> o_verified r \<and>
              c_now cxb < o_expiresAt r"
    unfolding d2 by (simp add: send_otp_app_subject [OF app sub])
  show "c_otp cxa \<noteq> c_otp cxb \<longrightarrow>
            outcome_of (fst (verify_otp now (rq\<lparr>req_otp := Some (c_otp cxa)\<rparr>) d2)) \<noteq> OK"
  proof
    assume ne: "c_otp cxa \<noteq> c_otp cxb"
    show "outcome_of (fst (verify_otp now (rq\<lparr>req_otp := Some (c_otp cxa)\<rparr>) d2)) \<noteq> OK"
    proof (cases "c_otp cxa = []")
      case True
      then have "\<not> well_formed (rq\<lparr>req_otp := Some (c_otp cxa)\<rparr>)" by (simp add: well_formed_def)
      then show ?thesis by (simp add: malformed_outcome)
    next
      case False
      from verify_after_issue [OF app sub False, of now cxb d1 m'] ne show ?thesis
        unfolding d2 by (simp add: Validate_in_order_def)
    qed
  qed
qed

lemma cx1_sel [simp]: "c_now cx1 = 7000" "c_otp cx1 = ''222222''"
  by (simp_all add: cx1_def)

lemma phone_req_otp [simp]: "(phone_req c p)\<lparr>req_otp := Some c'\<rparr> = phone_req c' p"
  by (simp add: phone_req_def)

text \<open>
  C3, the counterexample. \<open>generateOTP\<close> may return the same code twice; the code of
  the first issue is then the code of the second, and it is accepted.
\<close>

theorem same_code_issued_twice_is_accepted:
  "c_otp cx0 = ''111111'' \<and>
   outcome_of (fst (verify_otp 6000 (phone_req ''111111'' ''application'')
     (fst (snd (send_otp cx0 (phone_req [] ''application'')
        (fst (snd (send_otp cx0 (phone_req [] ''application'') db_app mailer0))) mailer0))))) = OK"
  using verify_after_issue [of "phone_req [] ''application''" "''111111''" 6000 cx0
      "fst (snd (send_otp cx0 (phone_req [] ''application'') db_app mailer0))" mailer0]
  by (simp add: Validate_in_order_def)

theorem send_otp_application_supersedes_witness:
  "map o_code (subject_records (phone_req [] ''application'')
     (fst (snd (send_otp cx1 (phone_req [] ''application'')
        (fst (snd (send_otp cx0 (phone_req [] ''application'') db_app mailer0))) mailer0)))) =
     [''222222''] \<and>
   outcome_of (fst (verify_otp 8000 (phone_req ''111111'' ''application'')
     (fst (snd (send_otp cx1 (phone_req [] ''application'')
        (fst (snd (send_otp cx0 (phone_req [] ''application'') db_app mailer0))) mailer0))))) \<noteq> OK"
proof -
  let ?rq = "phone_req [] ''application''"
  let ?d1 = "fst (snd (send_otp cx0 ?rq db_app mailer0))"
  let ?d2 = "fst (snd (send_otp cx1 ?rq ?d1 mailer0))"
  have app: "req_purpose ?rq = Some ''application''"
    and sub: "truthy (req_email ?rq) \<or> truthy (req_phone ?rq)" by simp_all
  note t = send_otp_application_supersedes [OF app sub refl refl, of cx1 cx0 db_app mailer0 mailer0 8000]
  from t obtain r where "subject_records ?rq ?d2 = [r]" "o_code r = c_otp cx1" by blast
  then have a: "map o_code (subject_records ?rq ?d2) = [''222222'']" by simp
  from t have b: "outcome_of (fst (verify_otp 8000 (phone_req ''111111'' ''application'') ?d2)) \<noteq> OK"
    by simp
  from a b show ?thesis by blast
qed

section \<open>Login codes for unknown subjects\<close>

lemma orElse_simps [simp]:
  "orElse (Some s) d = (if s = [] then d else s)" "orElse None d = d"
  by (simp_all add: orElse_def)

lemma unknown_stays_unknown:
  assumes sub: "truthy (req_email rq) \<or> truthy (req_phone rq)"
    and unknown: "issue_user rq d = None"
    and same: "same_subject_as rq rq'"
  shows "User_findOne (user_query rq') d = None"
proof (cases "truthy (req_email rq)")
  case True
  with unknown have "\<forall>u\<in>set (users d). u_email u \<noteq> the (req_email rq)"
    by (auto simp: issue_user_def User_findOne_def find_None_iff)
  moreover from True same have "truthy (req_email rq')" "the (req_email rq') = the (req_email rq)"
    by (simp_all add: same_subject_as_def)
  ultimately show ?thesis
    by (auto simp: User_findOne_def find_None_iff user_query_def)
next
  case False
  with sub have ph: "truthy (req_phone rq)" by simp
  with False unknown have "\<forall>u\<in>set (users d). u_phone u \<noteq> the (req_phone rq)"
    by (auto simp: issue_user_def User_findOne_def find_None_iff)
  moreover from False ph same have "truthy (req_phone rq')" "the (req_phone rq') = the (req_phone rq)"
    by (simp_all add: same_subject_as_def)
  ultimately show ?thesis
    by (auto simp: User_findOne_def find_None_iff user_query_def)
qed

text \<open>
  C9, as amended. For a send-otp request of purpose login whose subject belongs to no
  user, nothing is stored. Without an email the response is the success response with
  \<open>otpExpiresIn = 600\<close>; with an email the delivery is attempted and the response is
  that success response exactly when the delivery succeeds, and the 500 response
  ``Failed to send OTP email'' otherwise. Afterwards every verify-otp for that subject
  that supplies a code under a purpose other than application is answered NOT_FOUND.
\<close>

theorem send_otp_login_unknown_subject:
  assumes login: "req_purpose rq = Some ''login''"
    and sub: "truthy (req_email rq) \<or> truthy (req_phone rq)"
    and unknown: "issue_user rq d = None"
    and run: "send_otp cx rq d m = (rsp, d', m')"
  shows "d' = d \<and>
         (if truthy (req_email rq)
          then m' = snd (deliver cx rq ''login'' m) \<and>
               success rsp = r_success (fst (deliver cx rq ''login'' m))
          else m' = m \<and> success rsp) \<and>
         (if success rsp then status rsp = 200 \<and> otpExpiresIn rsp = Some 600
          else status rsp = 500 \<and> message rsp = ''Failed to send OTP email'') \<and>
         (\<forall>rq' now'. well_formed rq' \<and> req_purpose rq' \<noteq> Some ''application'' \<and>
              same_subject_as rq rq' \<longrightarrow>
            outcome_of (fst (verify_otp now' rq' d')) = NOT_FOUND)"
proof -
  have purp: "req_purpose rq \<noteq> Some ''application''" using login by simp
  have lab: "orElse (req_purpose rq) ''verification'' = ''login''"
    using login by (simp add: orElse_def)
  have iss: "issued cx rq d = d" using unknown by (simp add: issued_def)
  have parts: "d' = d \<and>
         (if truthy (req_email rq)
          then m' = snd (deliver cx rq ''login'' m) \<and>
               success rsp = r_success (fst (deliver cx rq ''login'' m))
          else m' = m \<and> success rsp) \<and>
         (if success rsp then status rsp = 200 \<and> otpExpiresIn rsp = Some 600
          else status rsp = 500 \<and> message rsp = ''Failed to send OTP email'')"
  proof (cases "truthy (req_email rq)")
    case True
    from send_otp_user_email [OF purp True, of d cx m] login run show ?thesis
      by (auto simp: lab iss True)
  next
    case False
    from send_otp_user_no_email [OF purp False, of d cx m] login run show ?thesis
      by (auto simp: iss False)
  qed
  have "outcome_of (fst (verify_otp now' rq' d')) = NOT_FOUND"
    if "well_formed rq'" "req_purpose rq' \<noteq> Some ''application''" "same_subject_as rq rq'"
    for rq' now'
  proof -
    from unknown_stays_unknown [OF sub unknown that(3)] parts
    have "embedded_lookup (user_query rq') d' = None" by (simp add: embedded_lookup_def)
    with that show ?thesis by (simp add: verify_otp_user_none outcome_of_def)
  qed
  with parts show ?thesis by blast
qed

lemma nobody_malformed: "\<not> rx_test email_pattern ''nobody''"
  by (simp add: email_pattern_def Plus_def not_space_at_def is_space_def)

lemma guest_wellformed: "rx_test email_pattern ''guest@x.com''"
  by (simp add: email_pattern_def Plus_def not_space_at_def is_space_def)

lemma Number_587: "Number_digits ''587'' = Some 587"
  by (simp add: Number_digits_def)

lemma trim_host: "trim ''smtp.example.com'' = ''smtp.example.com''"
  by (simp add: trim_def is_space_def)

lemma create_ok:
  "createTransporter Number_digits env_ok =
     Some \<lparr>t_host = ''smtp-relay.brevo.com'', t_port = 465, t_secure = False,
            t_auth_user = Some ''mailer@example.com'', t_auth_pass = Some ''first-secret'',
            t_requireTLS = True, t_service = None, t_debug = False\<rparr>"
  by (simp add: createTransporter_def diagnoseSMTPConfig_def validateSMTPConfig_def env_ok_def
      Number_587 trim_host Let_def trim_def is_space_def)

lemma nobody_req_sel [simp]:
  "req_email (nobody_req e) = Some e" "req_phone (nobody_req e) = None"
  "req_otp (nobody_req e) = None" "req_purpose (nobody_req e) = Some ''login''"
  by (simp_all add: nobody_req_def)

lemma guest_req_sel [simp]:
  "req_email (guest_req c p) = None" "req_phone (guest_req c p) = Some ''5559999''"
  "req_otp (guest_req c p) = c" "req_purpose (guest_req c p) = Some p"
  by (simp_all add: guest_req_def)

lemma cx_rejecting_sel [simp]:
  "c_now cx_rejecting = 5000" "c_otp cx_rejecting = ''111111''" "c_env cx_rejecting = env_ok"
  "c_smtp cx_rejecting = Rejected (Some ''EAUTH'') ''Invalid login''"
  "c_Number cx_rejecting = Number_digits"
  by (simp_all add: cx_rejecting_def)

lemma get_first_transporter:
  "getTransporter Number_digits env_ok mailer0 =
     (createTransporter Number_digits env_ok,
      mailer0\<lparr>transporter := createTransporter Number_digits env_ok,
              transporterInitialized := True,
              lastConfigHash := Some ''smtp.example.com_587_mailer@example.com''\<rparr>)"
  by (simp add: getTransporter_def mailer0_def getConfigHash_def Let_def) (simp add: env_ok_def)

lemma deliver_malformed:
  "fst (deliver cx (nobody_req ''nobody'') label m) = failure ''Invalid email address format'' ''EINVALID''"
  by (simp add: deliver_def sendOTPEmail_def nobody_malformed del: rx_test.simps)

lemma deliver_accepted:
  "r_success (fst (deliver cx0 (nobody_req ''guest@x.com'') ''login'' mailer0))"
  by (simp add: deliver_def sendOTPEmail_def guest_wellformed sendEmail_def
      get_first_transporter create_ok del: rx_test.simps)

lemma deliver_rejected:
  "\<not> r_success (fst (deliver cx_rejecting (nobody_req ''guest@x.com'') ''login'' mailer0))"
  by (simp add: deliver_def sendOTPEmail_def guest_wellformed sendEmail_def
      get_first_transporter create_ok del: rx_test.simps)

lemma unknown_examples [simp]:
  "issue_user (nobody_req ''nobody'') db_ann = None"
  "issue_user (nobody_req ''guest@x.com'') db_ann = None"
  "issue_user (guest_req c p) db_guest = None"
  by (simp_all add: issue_user_def User_findOne_def db_ann_def db_guest_def ann_def)

lemma failure_sel [simp]: "r_success (failure e c) = False" "r_code (failure e c) = Some c"
  "r_error (failure e c) = Some e"
  by (simp_all add: failure_def)

text \<open>
  C9, the counterexample. For a subject that belongs to no user, send-otp with purpose
  login answers 500 when the address is malformed and when the SMTP server rejects the
  message; and where an application record for the subject is pending, a later
  verify-otp of purpose application returns OK.
\<close>

theorem login_for_unknown_subject_fails_or_verifies:
  "issue_user (nobody_req ''nobody'') db_ann = None \<and>
   status (fst (send_otp cx0 (nobody_req ''nobody'') db_ann mailer0)) = 500 \<and>
   issue_user (nobody_req ''guest@x.com'') db_ann = None \<and>
   status (fst (send_otp cx_rejecting (nobody_req ''guest@x.com'') db_ann mailer0)) = 500 \<and>
   issue_user (guest_req None ''login'') db_guest = None \<and>
   success (fst (send_otp cx0 (guest_req None ''login'') db_guest mailer0)) \<and>
   outcome_of (fst (verify_otp 6000 (guest_req (Some ''654321'') ''application'')
      (fst (snd (send_otp cx0 (guest_req None ''login'') db_guest mailer0))))) = OK"
proof -
  have a: "status (fst (send_otp cx0 (nobody_req ''nobody'') db_ann mailer0)) = 500"
    by (simp add: send_otp_user_email deliver_malformed)
  have b: "status (fst (send_otp cx_rejecting (nobody_req ''guest@x.com'') db_ann mailer0)) = 500"
    by (simp add: send_otp_user_email deliver_rejected)
  have c: "send_otp cx0 (guest_req None ''login'') db_guest mailer0 =
     ((reply 200 True ''OTP sent successfully'')
         \<lparr>otpExpiresIn := Some 600, devOtp := dev_otp (c_env cx0) (c_otp cx0)\<rparr>,
      db_guest, mailer0)"
    by (simp add: send_otp_user_no_email issued_def)
  have d: "stored_record (guest_req (Some ''654321'') ''application'') db_guest = Some (900000, ''654321'')"
    by (simp add: stored_record_def standalone_lookup_def OTP_findOne_def otp_query_def
        db_guest_def guest_pending_def)
  have e: "outcome_of (fst (verify_otp 6000 (guest_req (Some ''654321'') ''application'') db_guest)) = OK"
    by (simp add: verify_otp_outcome well_formed_def d Validate_in_order_def)
  from a b c e show ?thesis by simp
qed

theorem send_otp_login_unknown_subject_witness:
  "snd (send_otp cx0 (guest_req None ''login'') db_guest mailer0) = (db_guest, mailer0) \<and>
   otpExpiresIn (fst (send_otp cx0 (guest_req None ''login'') db_guest mailer0)) = Some 600 \<and>
   outcome_of (fst (verify_otp 6000 (guest_req (Some ''111111'') ''login'')
      (fst (snd (send_otp cx0 (guest_req None ''login'') db_guest mailer0))))) = NOT_FOUND \<and>
   fst (snd (send_otp cx0 (nobody_req ''guest@x.com'') db_ann mailer0)) = db_ann \<and>
   otpExpiresIn (fst (send_otp cx0 (nobody_req ''guest@x.com'') db_ann mailer0)) = Some 600 \<and>
   status (fst (send_otp cx_rejecting (nobody_req ''guest@x.com'') db_ann mailer0)) = 500"
proof -
  let ?g = "send_otp cx0 (guest_req None ''login'') db_guest mailer0"
  let ?n = "send_otp cx0 (nobody_req ''guest@x.com'') db_ann mailer0"
  let ?r = "send_otp cx_rejecting (nobody_req ''guest@x.com'') db_ann mailer0"
  have rg: "?g = (fst ?g, fst (snd ?g), snd (snd ?g))" and rn: "?n = (fst ?n, fst (snd ?n), snd (snd ?n))"
    and rr: "?r = (fst ?r, fst (snd ?r), snd (snd ?r))" by simp_all
  have tg: "truthy (req_email (guest_req None ''login'')) \<or> truthy (req_phone (guest_req None ''login''))"
    and tn: "truthy (req_email (nobody_req ''guest@x.com'')) \<or> truthy (req_phone (nobody_req ''guest@x.com''))"
    by simp_all
  have lg: "req_purpose (guest_req None ''login'') = Some ''login''"
    and ln: "req_purpose (nobody_req ''guest@x.com'') = Some ''login''"
    and ug: "issue_user (guest_req None ''login'') db_guest = None"
    and un: "issue_user (nobody_req ''guest@x.com'') db_ann = None" by simp_all
  note g = send_otp_login_unknown_subject [OF lg tg ug rg]
  note n = send_otp_login_unknown_subject [OF ln tn un rn]
  note r = send_otp_login_unknown_subject [OF ln tn un rr]
  have same: "same_subject_as (guest_req None ''login'') (guest_req (Some ''111111'') ''login'')"
    by (simp add: same_subject_as_def)
  have wf: "well_formed (guest_req (Some ''111111'') ''login'')" by (simp add: well_formed_def)
  from g have g1: "fst (snd ?g) = db_guest" "snd (snd ?g) = mailer0" "success (fst ?g)" by simp_all
  with g have g2: "otpExpiresIn (fst ?g) = Some 600" by simp
  from g [THEN conjunct2, THEN conjunct2, THEN conjunct2, rule_format,
      of "guest_req (Some ''111111'') ''login''" 6000] wf same
  have g3: "outcome_of (fst (verify_otp 6000 (guest_req (Some ''111111'') ''login'') (fst (snd ?g)))) = NOT_FOUND"
    by simp
  from n have n1: "fst (snd ?n) = db_ann" by simp
  from n deliver_accepted have "success (fst ?n)" by simp
  with n have n2: "otpExpiresIn (fst ?n) = Some 600" by simp
  from r deliver_rejected have "\<not> success (fst ?r)" by simp
  with r have r1: "status (fst ?r) = 500" by simp
  from g1 g2 g3 n1 n2 r1 show ?thesis by (simp add: prod_eq_iff)
qed

section \<open>The matcher and the language of a pattern\<close>

inductive_cases matches_NullE: "matches Null w"

inductive_cases matches_EpsE: "matches Eps w"

inductive_cases matches_ChrE: "matches (Chr a) w"

inductive_cases matches_ExceptE: "matches (Except P) w"

inductive_cases matches_AltE: "matches (Alt r s) w"

inductive_cases matches_SeqE: "matches (Seq r s) w"

lemma matches_empty_nullable: "matches r w \<Longrightarrow> w = [] \<Longrightarrow> nullable r"
  by (induction rule: matches.induct) simp_all

lemma nullable_matches_empty: "nullable r \<Longrightarrow> matches r []"
proof (induction r)
  case (Seq r s)
  then have "matches r []" "matches s []" by simp_all
  then have "matches (Seq r s) ([] @ [])" by (rule m_Seq)
  then show ?case by simp
qed (auto intro: matches.intros)

lemma nullable_iff: "nullable r \<longleftrightarrow> matches r []"
  using matches_empty_nullable nullable_matches_empty by blast

lemma matches_deriv: "matches r x \<Longrightarrow> x = c # w \<Longrightarrow> matches (deriv c r) w"
proof (induction arbitrary: w rule: matches.induct)
  case (m_Seq r u s v)
  show ?case
  proof (cases u)
    case Nil
    with m_Seq.hyps(1) have "nullable r" by (simp add: nullable_iff)
    moreover from Nil m_Seq.prems have "matches (deriv c s) w" by (simp add: m_Seq.IH(2))
    ultimately show ?thesis by (simp add: m_AltR)
  next
    case (Cons a u')
    with m_Seq.prems have "a = c" and w: "w = u' @ v" by simp_all
    with Cons have "matches (deriv c r) u'" by (simp add: m_Seq.IH(1))
    with m_Seq.hyps(2) have "matches (Seq (deriv c r) s) w" unfolding w by (simp add: matches.m_Seq)
    then show ?thesis by (simp add: m_AltL)
  qed
next
  case (m_StarCons r u v)
  show ?case
  proof (cases u)
    case Nil
    with m_StarCons.prems have "v = c # w" by simp
    then have "matches (deriv c (Star r)) w" by (rule m_StarCons.IH(2))
    then show ?thesis by simp
  next
    case (Cons a u')
    with m_StarCons.prems have "a = c" and w: "w = u' @ v" by simp_all
    with Cons have "matches (deriv c r) u'" by (simp add: m_StarCons.IH(1))
    with m_StarCons.hyps(2) have "matches (Seq (deriv c r) (Star r)) w"
      unfolding w by (simp add: matches.m_Seq)
    then show ?thesis by simp
  qed
qed (auto intro: matches.intros)

lemma deriv_matches: "matches (deriv c r) w \<Longrightarrow> matches r (c # w)"
proof (induction r arbitrary: w)
  case Null
  then show ?case by (auto elim: matches_NullE)
next
  case Eps
  then show ?case by (auto elim: matches_NullE)
next
  case (Chr a)
  then show ?case
    by (auto split: if_splits elim: matches_NullE matches_EpsE intro: m_Chr)
next
  case (Except P)
  then show ?case
    by (auto split: if_splits elim: matches_NullE matches_EpsE intro: m_Except)
next
  case (Alt r s)
  then show ?case by (auto elim!: matches_AltE intro: m_AltL m_AltR)
next
  case (Seq r s)
  have left: "matches (Seq r s) (c # w)" if "matches (Seq (deriv c r) s) w"
  proof -
    from that obtain u v where "w = u @ v" "matches (deriv c r) u" "matches s v"
      by (auto elim: matches_SeqE)
    then have "matches (Seq r s) ((c # u) @ v)"
      by (intro m_Seq) (simp_all add: Seq.IH(1))
    with \<open>w = u @ v\<close> show ?thesis by simp
  qed
  have right: "matches (Seq r s) (c # w)" if "nullable r" "matches (deriv c s) w"
  proof -
    from that have "matches r []" "matches s (c # w)"
      by (simp_all add: nullable_iff Seq.IH(2))
    then have "matches (Seq r s) ([] @ c # w)" by (rule m_Seq)
    then show ?thesis by simp
  qed
  from Seq.prems left right show ?case
    by (auto split: if_splits elim!: matches_AltE)
next
  case (Star r)
  then obtain u v where "w = u @ v" "matches (deriv c r) u" "matches (Star r) v"
    by (auto elim: matches_SeqE)
  then have "matches (Star r) ((c # u) @ v)"
    by (intro m_StarCons) (simp_all add: Star.IH)
  with \<open>w = u @ v\<close> show ?case by simp
qed

lemma rx_test_iff: "rx_test r w \<longleftrightarrow> matches r w"
proof (induction w arbitrary: r)
  case Nil
  show ?case by (simp add: nullable_iff)
next
  case (Cons c w)
  then show ?case using matches_deriv deriv_matches by auto
qed

lemma matches_Seq_iff: "matches (Seq r s) w \<longleftrightarrow> (\<exists>u v. w = u @ v \<and> matches r u \<and> matches s v)"
  by (blast elim: matches_SeqE intro: m_Seq)

lemma matches_Chr_iff: "matches (Chr a) w \<longleftrightarrow> w = [a]"
  by (auto elim: matches_ChrE intro: m_Chr)

lemma matches_Except_iff: "matches (Except P) w \<longleftrightarrow> (\<exists>c. w = [c] \<and> \<not> P c)"
  by (auto elim: matches_ExceptE intro: m_Except)

lemma matches_Star_class_only:
  "matches r w \<Longrightarrow> r = Star (Except P) \<Longrightarrow> \<forall>c\<in>set w. \<not> P c"
  by (induction rule: matches.induct) (auto simp: matches_Except_iff)

lemma matches_Star_class_all: "\<forall>c\<in>set w. \<not> P c \<Longrightarrow> matches (Star (Except P)) w"
proof (induction w)
  case Nil
  show ?case by (rule m_StarNil)
next
  case (Cons c w)
  then have "matches (Except P) [c]" "matches (Star (Except P)) w"
    by (simp_all add: m_Except)
  then have "matches (Star (Except P)) ([c] @ w)" by (rule m_StarCons)
  then show ?case by simp
qed

lemma matches_Plus_class:
  "matches (Plus (Except P)) w \<longleftrightarrow> w \<noteq> [] \<and> (\<forall>c\<in>set w. \<not> P c)"
proof
  assume "matches (Plus (Except P)) w"
  then obtain c v where "w = c # v" "\<not> P c" "matches (Star (Except P)) v"
    by (auto simp: Plus_def matches_Seq_iff matches_Except_iff)
  then show "w \<noteq> [] \<and> (\<forall>c\<in>set w. \<not> P c)"
    using matches_Star_class_only [of "Star (Except P)" v P] by simp
next
  assume a: "w \<noteq> [] \<and> (\<forall>c\<in>set w. \<not> P c)"
  then obtain c v where w: "w = c # v" by (cases w) simp_all
  with a have "matches (Except P) [c]" "matches (Star (Except P)) v"
    by (simp_all add: m_Except matches_Star_class_all)
  then have "matches (Seq (Except P) (Star (Except P))) ([c] @ v)" by (rule m_Seq)
  with w show "matches (Plus (Except P)) w" by (simp add: Plus_def)
qed

lemma split_in_three:
  "(\<exists>a t. s = a @ t \<and> A a \<and>
      (\<exists>x t'. t = x @ t' \<and> x = p \<and>
         (\<exists>b t''. t' = b @ t'' \<and> B b \<and> (\<exists>y c. t'' = y @ c \<and> y = q \<and> C c)))) \<longleftrightarrow>
   (\<exists>a b c. s = a @ p @ b @ q @ c \<and> A a \<and> B b \<and> C c)"
  by blast

lemma matches_Plus_not_space_at: "matches (Plus not_space_at) w \<longleftrightarrow> address_part w"
  by (simp add: not_space_at_def matches_Plus_class address_part_def list_all_iff)

text \<open>
  The pattern accepts exactly the strings \<open>a@b.c\<close> with \<open>a\<close>, \<open>b\<close>, \<open>c\<close> non-empty and
  free of white space and of \<open>@\<close>.
\<close>

lemma email_pattern_iff:
  "rx_test email_pattern s \<longleftrightarrow>
     (\<exists>a b c. s = a @ ''@'' @ b @ ''.'' @ c \<and> address_part a \<and> address_part b \<and> address_part c)"
proof -
  have "rx_test email_pattern s \<longleftrightarrow>
          (\<exists>a t. s = a @ t \<and> address_part a \<and>
             (\<exists>x t'. t = x @ t' \<and> x = ''@'' \<and>
                (\<exists>b t''. t' = b @ t'' \<and> address_part b \<and>
                   (\<exists>y c. t'' = y @ c \<and> y = ''.'' \<and> address_part c))))"
    unfolding rx_test_iff email_pattern_def
    by (simp only: matches_Seq_iff matches_Chr_iff matches_Plus_not_space_at)
  then show ?thesis by (simp only: split_in_three)
qed

section \<open>SendOTP and malformed addresses\<close>

lemma email_pattern_nonempty: "rx_test email_pattern s \<Longrightarrow> s \<noteq> []"
  by (auto simp: email_pattern_def Plus_def)

text \<open>For contrast: a well-formed address, with a client at hand, is one more transport attempt.\<close>

lemma sendOTPEmail_valid_address_attempt:
  assumes "rx_test email_pattern s" "fst (getTransporter num e m) \<noteq> None"
  shows "attempts (snd (sendOTPEmail num e rep (Some s) otp purp m)) =
           attempts m @
           [\<lparr>m_from = (if truthy (EMAIL_FROM e) then EMAIL_FROM e else EMAIL_USER e), m_to = s,
             m_subject = ''Your OTP for '' @ (case purp of None \<Rightarrow> ''verification'' | Some p \<Rightarrow> p)\<rparr>]"
proof -
  from assms(1) have ne: "s \<noteq> []" by (rule email_pattern_nonempty)
  have att: "attempts (snd (getTransporter num e m)) = attempts m"
    by (simp add: getTransporter_def Let_def)
  from assms ne att show ?thesis
    by (cases "fst (getTransporter num e m)"; cases rep)
       (simp_all add: sendOTPEmail_def sendEmail_def split_def Let_def del: rx_test.simps)
qed

text \<open>
  C8. For every recipient string that the email-shape pattern does not accept (the
  pattern being read by what it accepts, not by the matcher),
  \<open>sendOTPEmail\<close> returns the failure with code \<open>EINVALID\<close> (``Invalid email address
  format'') and leaves the adapter as it was: no client is fetched or built and the
  list of transport attempts is unchanged, whatever the configuration and the server.
\<close>

theorem sendOTPEmail_rejects_malformed_address:
  assumes "\<not> matches email_pattern s"
  shows "sendOTPEmail num e rep (Some s) otp purp m =
           (failure ''Invalid email address format'' ''EINVALID'', m)"
proof -
  from assms have "\<not> rx_test email_pattern s" by (simp add: rx_test_iff)
  then show ?thesis by (simp add: sendOTPEmail_def del: rx_test.simps)
qed

lemma not_an_email: "\<not> rx_test email_pattern ''not-an-email''"
  by (simp add: email_pattern_def Plus_def not_space_at_def is_space_def)

theorem sendOTPEmail_rejects_malformed_address_witness:
  "\<not> matches email_pattern ''not-an-email'' \<and>
   r_code (fst (sendOTPEmail Number_digits env_ok (Accepted ''msg-1'') (Some ''not-an-email'')
      ''123456'' (Some ''verification'') mailer0)) = Some ''EINVALID'' \<and>
   snd (sendOTPEmail Number_digits env_ok (Accepted ''msg-1'') (Some ''not-an-email'')
      ''123456'' (Some ''verification'') mailer0) = mailer0 \<and>
   attempts mailer0 = []"
proof -
  have no: "\<not> matches email_pattern ''not-an-email''"
    using not_an_email unfolding rx_test_iff .
  from sendOTPEmail_rejects_malformed_address [OF no, where num = Number_digits
      and e = env_ok and rep = "Accepted ''msg-1''" and otp = "''123456''"
      and purp = "Some ''verification''" and m = mailer0] no
  show ?thesis by (simp add: mailer0_def)
qed

section \<open>The cached client and the configuration\<close>

lemma getConfigHash_ignores_pass [simp]:
  "getConfigHash (e\<lparr>EMAIL_PASS := p\<rparr>) = getConfigHash e"
  by (simp add: getConfigHash_def)

lemma getTransporter_state:
  "transporterInitialized (snd (getTransporter num e m)) \<and>
   lastConfigHash (snd (getTransporter num e m)) = Some (getConfigHash e) \<and>
   transporter (snd (getTransporter num e m)) = fst (getTransporter num e m)"
  by (simp add: getTransporter_def Let_def)

text \<open>A changed fingerprint rebuilds the client.\<close>

lemma getTransporter_rebuilds:
  "getConfigHash e' \<noteq> getConfigHash e \<Longrightarrow>
     fst (getTransporter num e' (snd (getTransporter num e m))) = createTransporter num e'"
  using getTransporter_state [of num e m]
  by (simp add: getTransporter_def [of num e'] Let_def)

text \<open>The fingerprint changes with the host, the port or the user alone.\<close>

lemma getConfigHash_changes:
  "orElse h [] \<noteq> orElse (EMAIL_HOST e) [] \<Longrightarrow> getConfigHash (e\<lparr>EMAIL_HOST := h\<rparr>) \<noteq> getConfigHash e"
  "orElse q [] \<noteq> orElse (EMAIL_PORT e) [] \<Longrightarrow> getConfigHash (e\<lparr>EMAIL_PORT := q\<rparr>) \<noteq> getConfigHash e"
  "orElse u [] \<noteq> orElse (EMAIL_USER e) [] \<Longrightarrow> getConfigHash (e\<lparr>EMAIL_USER := u\<rparr>) \<noteq> getConfigHash e"
  by (simp_all add: getConfigHash_def)

text \<open>
  C6 asks that a change of any one of host, port, user and credential rebuilds the
  client. The fingerprint is built from host, port and user only: after any call of
  \<open>getTransporter\<close>, a call under an environment that differs in \<open>EMAIL_PASS\<close> alone
  returns the cached client and leaves the state as it was.
\<close>

theorem getTransporter_keeps_client_when_only_credential_changes:
  "getTransporter num (e\<lparr>EMAIL_PASS := p\<rparr>) (snd (getTransporter num e m)) =
     (fst (getTransporter num e m), snd (getTransporter num e m))"
  using getTransporter_state [of num e m]
  by (simp add: getTransporter_def [of num "e\<lparr>EMAIL_PASS := p\<rparr>"] Let_def)

lemma create_rotated:
  "createTransporter Number_digits env_rotated =
     Some \<lparr>t_host = ''smtp-relay.brevo.com'', t_port = 465, t_secure = False,
            t_auth_user = Some ''mailer@example.com'', t_auth_pass = Some ''second-secret'',
            t_requireTLS = True, t_service = None, t_debug = False\<rparr>"
  by (simp add: createTransporter_def diagnoseSMTPConfig_def validateSMTPConfig_def env_ok_def
      env_rotated_def Number_587 trim_host Let_def trim_def is_space_def)

theorem getTransporter_keeps_client_when_only_credential_changes_witness:
  "EMAIL_PASS env_rotated = Some ''second-secret'' \<and>
   map_option t_auth_pass (createTransporter Number_digits env_rotated) = Some (Some ''second-secret'') \<and>
   map_option t_auth_pass
     (fst (getTransporter Number_digits env_rotated (snd (getTransporter Number_digits env_ok mailer0)))) =
   Some (Some ''first-secret'')"
  using getTransporter_keeps_client_when_only_credential_changes
    [where num = Number_digits and e = env_ok and p = "Some ''second-secret''" and m = mailer0]
  by (simp add: env_rotated_def [symmetric] create_rotated get_first_transporter create_ok)
     (simp add: env_rotated_def env_ok_def)

section \<open>The invariant of the stores holds in every reachable store\<close>

lemma map_replace_first: "f y = k \<Longrightarrow> map f (replace_first (\<lambda>x. f x = k) y xs) = map f xs"
  by (induction xs) auto

lemma set_remove_first: "set (remove_first P xs) \<subseteq> set xs"
  by (induction xs) auto

lemma distinct_remove_first: "distinct (map f xs) \<Longrightarrow> distinct (map f (remove_first P xs))"
proof (induction xs)
  case Nil
  then show ?case by simp
next
  case (Cons a xs)
  have "f a \<notin> f ` set (remove_first P xs)" if "f a \<notin> f ` set xs"
    using that set_remove_first [of P xs] by blast
  with Cons show ?case by auto
qed

lemma reset_password_db:
  "snd (reset_password now rq d) =
     (if success (fst (reset_password now rq d))
      then User_save ((the (User_findOne (\<lambda>u. u_email u = the (req_email rq)) d))
             \<lparr>u_password := the (req_newPassword rq), u_otp := None\<rparr>) d
      else d)"
  by (auto simp: reset_password_def split: option.splits)

lemma store_ok_User_save: "store_ok d \<Longrightarrow> store_ok (User_save v d)"
  by (simp add: store_ok_def User_save_def map_replace_first)

lemma store_ok_OTP_deleteOne:
  assumes "store_ok d"
  shows "store_ok (OTP_deleteOne i d)"
proof -
  have sub: "set (remove_first (\<lambda>r. o_id r = i) (otps d)) \<subseteq> set (otps d)"
    by (rule set_remove_first)
  from assms have "distinct (map o_id (remove_first (\<lambda>r. o_id r = i) (otps d)))"
    by (simp add: store_ok_def distinct_remove_first)
  with assms sub show ?thesis
    by (auto simp: store_ok_def OTP_deleteOne_def)
qed

lemma same_subject_verified [simp]:
  "same_subject (r\<lparr>o_verified := b\<rparr>) z = same_subject r z"
  "same_subject z (r\<lparr>o_verified := b\<rparr>) = same_subject z r"
  by (simp_all add: same_subject_def)

lemma store_ok_OTP_save:
  assumes inv: "store_ok d" and mem: "r \<in> set (otps d)"
  shows "store_ok (OTP_save (r\<lparr>o_verified := True\<rparr>) d)"
proof -
  let ?r' = "r\<lparr>o_verified := True\<rparr>"
  let ?new = "replace_first (\<lambda>x. o_id x = o_id r) ?r' (otps d)"
  from inv have dist: "distinct (map o_id (otps d))"
    and bound: "\<forall>z\<in>set (otps d). o_id z < next_oid d"
    and uniq: "\<forall>z\<in>set (otps d). \<forall>z'\<in>set (otps d). same_subject z z' \<longrightarrow> z = z'"
    by (simp_all add: store_ok_def)
  have ids: "map o_id ?new = map o_id (otps d)" by (simp add: map_replace_first)
  have elem: "z = ?r' \<or> (z \<in> set (otps d) \<and> o_id z \<noteq> o_id r)" if "z \<in> set ?new" for z
    using set_replace_first [OF dist that] .
  have b': "\<forall>z\<in>set ?new. o_id z < next_oid d"
  proof
    fix z assume "z \<in> set ?new"
    from elem [OF this] bound mem show "o_id z < next_oid d" by auto
  qed
  have u': "\<forall>z\<in>set ?new. \<forall>z'\<in>set ?new. same_subject z z' \<longrightarrow> z = z'"
  proof (intro ballI impI)
    fix z z' assume z: "z \<in> set ?new" and z': "z' \<in> set ?new" and s: "same_subject z z'"
    from elem [OF z] elem [OF z'] show "z = z'"
    proof (elim disjE)
      assume "z = ?r'" "z' = ?r'"
      then show ?thesis by simp
    next
      assume a: "z = ?r'" and b: "z' \<in> set (otps d) \<and> o_id z' \<noteq> o_id r"
      with s have "same_subject r z'" by simp
      with uniq mem b have "r = z'" by blast
      with b show ?thesis by simp
    next
      assume a: "z \<in> set (otps d) \<and> o_id z \<noteq> o_id r" and b: "z' = ?r'"
      with s have "same_subject z r" by simp
      with uniq mem a have "z = r" by blast
      with a show ?thesis by simp
    next
      assume "z \<in> set (otps d) \<and> o_id z \<noteq> o_id r" "z' \<in> set (otps d) \<and> o_id z' \<noteq> o_id r"
      with uniq s show ?thesis by blast
    qed
  qed
  from inv ids b' u' dist show ?thesis
    by (simp add: store_ok_def OTP_save_def)
qed

lemma store_ok_issue_application:
  assumes inv: "store_ok d"
    and app: "req_purpose rq = Some ''application''"
    and sub: "truthy (req_email rq) \<or> truthy (req_phone rq)"
  shows "store_ok (fst (snd (send_otp cx rq d m)))"
proof -
  let ?new = "\<lparr>o_id = next_oid d,
             o_email = (if truthy (req_email rq) then req_email rq else None),
             o_phone = (if truthy (req_email rq) then None else req_phone rq),
             o_code = c_otp cx, o_purpose = ''application'',
             o_expiresAt = c_now cx + 600000, o_verified = False\<rparr>"
  let ?kept = "filter (\<lambda>r. \<not> is_subject rq r) (otps d)"
  let ?d' = "fst (snd (send_otp cx rq d m))"
  from inv have dist: "distinct (map o_id (otps d))"
    and bound: "\<forall>z\<in>set (otps d). o_id z < next_oid d"
    and uniq: "\<forall>z\<in>set (otps d). \<forall>z'\<in>set (otps d). same_subject z z' \<longrightarrow> z = z'"
    and us: "distinct (map u_id (users d))"
    by (simp_all add: store_ok_def)
  have otps': "otps ?d' = ?kept @ [?new]"
    by (rule send_otp_app_otps [OF app sub])
  have rest: "users ?d' = users d" "next_oid ?d' = Suc (next_oid d)"
    by (simp_all add: send_otp_app_db [OF app sub] OTP_create_def OTP_deleteMany_def)
  have fresh: "next_oid d \<notin> o_id ` set ?kept" using bound by auto
  have d': "distinct (map o_id (?kept @ [?new]))"
    using dist fresh by (simp add: distinct_map_filter)
  have b': "\<forall>z\<in>set (?kept @ [?new]). o_id z < Suc (next_oid d)"
    using bound by auto
  have apart: "\<not> same_subject ?new z \<and> \<not> same_subject z ?new" if "z \<in> set ?kept" for z
  proof -
    from that have "\<not> is_subject rq z" by simp
    with sub show ?thesis
      by (cases "req_email rq"; cases "req_phone rq")
         (auto simp: same_subject_def is_subject_def split: if_splits)
  qed
  have u': "\<forall>z\<in>set (?kept @ [?new]). \<forall>z'\<in>set (?kept @ [?new]). same_subject z z' \<longrightarrow> z = z'"
  proof (intro ballI impI)
    fix z z' assume z: "z \<in> set (?kept @ [?new])" and z': "z' \<in> set (?kept @ [?new])"
      and s: "same_subject z z'"
    show "z = z'"
    proof (cases "z = ?new")
      case zn: True
      show ?thesis
      proof (cases "z' = ?new")
        case True
        with zn show ?thesis by simp
      next
        case False
        with z' have "z' \<in> set ?kept" by simp
        from apart [OF this] s zn show ?thesis by simp
      qed
    next
      case zo: False
      with z have zk: "z \<in> set ?kept" by simp
      show ?thesis
      proof (cases "z' = ?new")
        case True
        with apart [OF zk] s show ?thesis by simp
      next
        case False
        with z' have "z' \<in> set ?kept" by simp
        with zk uniq s show ?thesis by simp
      qed
    qed
  qed
  from us d' b' u' show ?thesis
    unfolding store_ok_def otps' rest by blast
qed

lemma store_ok_issued: "store_ok d \<Longrightarrow> store_ok (issued cx rq d)"
  by (simp add: issued_def store_ok_User_save split: option.splits)

lemma store_ok_send_otp:
  assumes "store_ok d"
  shows "store_ok (fst (snd (send_otp cx rq d m)))"
proof (cases rule: send_otp_cases [where rq = rq and d = d])
  case app_email
  with assms show ?thesis by (simp add: store_ok_issue_application)
next
  case app_phone
  with assms show ?thesis by (simp add: store_ok_issue_application)
next
  case app_nobody
  with assms show ?thesis by (simp add: send_otp_app_nobody)
next
  case user_404
  with assms show ?thesis by (simp add: send_otp_user_404)
next
  case user_email
  with assms show ?thesis by (simp add: send_otp_user_email store_ok_issued)
next
  case user_no_email
  with assms show ?thesis by (simp add: send_otp_user_no_email store_ok_issued)
qed

lemma store_ok_forgot_password:
  assumes "store_ok d"
  shows "store_ok (fst (snd (forgot_password cx rq d m)))"
proof (cases "truthy (req_email rq)")
  case False
  with assms show ?thesis by (simp add: forgot_password_def)
next
  case True
  show ?thesis
  proof (cases "User_findOne (\<lambda>u. u_email u = the (req_email rq)) d")
    case None
    with True assms show ?thesis by (simp add: forgot_password_def)
  next
    case (Some u)
    with True assms show ?thesis by (simp add: forgot_password_db store_ok_User_save)
  qed
qed

lemma store_ok_reset_password:
  assumes "store_ok d"
  shows "store_ok (snd (reset_password now rq d))"
proof (cases "success (fst (reset_password now rq d))")
  case True
  with reset_password_db [of now rq d] assms show ?thesis
    by (auto simp: store_ok_User_save)
next
  case False
  with reset_password_db [of now rq d] assms show ?thesis by simp
qed

lemma store_ok_verify_otp:
  assumes inv: "store_ok d"
  shows "store_ok (snd (verify_otp now rq d))"
proof (cases "outcome_of (fst (verify_otp now rq d))")
  case OK
  then have wf: "well_formed rq" using malformed_outcome [of rq now d] by auto
  from OK verify_otp_outcome [OF wf, of now d]
  have "Validate_in_order (stored_record rq d) now (the (req_otp rq)) = OK" by simp
  then obtain e where st: "stored_record rq d = Some (e, the (req_otp rq))"
    using Validate_OK by blast
  show ?thesis
  proof (cases "req_purpose rq = Some ''application''")
    case True
    with st obtain r where found: "OTP_findOne (otp_query rq) d = Some r"
      by (auto simp: stored_record_def standalone_lookup_def)
    then have "r \<in> set (otps d)" by (simp add: OTP_findOne_def find_SomeD)
    with inv have "store_ok (OTP_save (r\<lparr>o_verified := True\<rparr>) d)" by (rule store_ok_OTP_save)
    with OK True found show ?thesis by (simp add: verify_otp_db)
  next
    case False
    with OK inv show ?thesis by (simp add: verify_otp_db store_ok_User_save)
  qed
next
  case NOT_FOUND
  with inv show ?thesis by (simp add: verify_otp_db)
next
  case EXPIRED
  with inv show ?thesis by (simp add: verify_otp_db store_ok_OTP_deleteOne)
next
  case MISMATCH
  with inv show ?thesis by (simp add: verify_otp_db)
next
  case OTHER
  with inv show ?thesis by (simp add: verify_otp_db)
qed

text \<open>Every store the four handlers can reach from an empty OTP collection satisfies the invariant.\<close>

lemma reachable_store_ok: "reachable d \<Longrightarrow> store_ok d"
proof (induction rule: reachable.induct)
  case (start us n)
  then show ?case by (simp add: store_ok_def)
next
  case (forgot d cx rq m)
  then show ?case by (simp add: store_ok_forgot_password)
next
  case (reset d now rq)
  then show ?case by (simp add: store_ok_reset_password)
next
  case (send d cx rq m)
  then show ?case by (simp add: store_ok_send_otp)
next
  case (verify d now rq)
  then show ?case by (simp add: store_ok_verify_otp)
qed

section \<open>A validated code is used up\<close>

text \<open>
  C4. In a store that satisfies the invariant, after a verify-otp that succeeded, the
  same request is answered NOT_FOUND at any later time: in the application flow the
  record is still stored, now marked verified, and the lookup (which asks for
  \<open>verified = false\<close>) finds nothing; in the user-based flow the user is found again
  and the slot is empty.
\<close>

theorem verify_otp_single_use:
  assumes inv: "store_ok d" and run: "verify_otp now rq d = (rsp, d')" and ok: "success rsp"
  shows "outcome_of (fst (verify_otp now2 rq d')) = NOT_FOUND \<and>
         (if req_purpose rq = Some ''application''
          then (\<exists>r. OTP_findOne (otp_query rq) d = Some r \<and>
                    r\<lparr>o_verified := True\<rparr> \<in> set (otps d') \<and>
                    OTP_findOne (otp_query rq) d' = None)
          else (\<exists>u. User_findOne (user_query rq) d' = Some u \<and> u_otp u = None))"
proof -
  from run have rsp: "rsp = fst (verify_otp now rq d)" and d': "d' = snd (verify_otp now rq d)"
    by simp_all
  from ok have out: "outcome_of (fst (verify_otp now rq d)) = OK"
    by (simp add: outcome_success rsp)
  then have wf: "well_formed rq" using malformed_outcome [of rq now d] by auto
  from out verify_otp_outcome [OF wf, of now d]
  have "Validate_in_order (stored_record rq d) now (the (req_otp rq)) = OK" by simp
  then obtain e where st: "stored_record rq d = Some (e, the (req_otp rq))"
    using Validate_OK by blast
  show ?thesis
  proof (cases "req_purpose rq = Some ''application''")
    case app: True
    with st obtain r where found: "OTP_findOne (otp_query rq) d = Some r"
      by (auto simp: stored_record_def standalone_lookup_def)
    with out app have dsave: "d' = OTP_save (r\<lparr>o_verified := True\<rparr>) d"
      using verify_otp_db [of now rq d] d' by simp
    have none: "OTP_findOne (otp_query rq) d' = None"
      unfolding dsave by (rule standalone_consumed [OF inv wf found])
    from found have "r \<in> set (otps d)" by (simp add: OTP_findOne_def find_SomeD)
    then have mem: "r\<lparr>o_verified := True\<rparr> \<in> set (otps d')"
      unfolding dsave OTP_save_def by (simp add: replace_first_mem)
    from none wf app have "verify_otp now2 rq d' = (reply 400 False ''Invalid OTP or OTP not found'', d')"
      by (simp add: verify_otp_app_none)
    with app found mem none show ?thesis by (simp add: outcome_of_def)
  next
    case usr: False
    with st obtain u where found: "User_findOne (user_query rq) d = Some u"
      by (auto simp: stored_record_def embedded_lookup_def split: option.splits)
    with out usr have dsave: "d' = User_save ((mark_verified rq u)\<lparr>u_otp := None\<rparr>) d"
      using verify_otp_db [of now rq d] d' by simp
    have again: "User_findOne (user_query rq) d' = Some ((mark_verified rq u)\<lparr>u_otp := None\<rparr>)"
      unfolding dsave by (rule embedded_consumed [OF inv found])
    then have "embedded_lookup (user_query rq) d' = None"
      by (simp add: embedded_lookup_def)
    with wf usr have "verify_otp now2 rq d' = (reply 400 False ''Invalid OTP or OTP not found'', d')"
      by (simp add: verify_otp_user_none)
    with usr again show ?thesis by (simp add: outcome_of_def)
  qed
qed

lemma store_ok_examples: "store_ok db_app" "store_ok db_ann"
  by (simp_all add: store_ok_def db_app_def db_ann_def pending_def)

theorem verify_otp_single_use_witness:
  "store_ok db_app \<and>
   success (fst (verify_otp 500 (verify_req ''654321'' ''application'') db_app)) \<and>
   outcome_of (fst (verify_otp 600 (verify_req ''654321'' ''application'')
      (snd (verify_otp 500 (verify_req ''654321'' ''application'') db_app)))) = NOT_FOUND \<and>
   store_ok db_ann \<and>
   success (fst (verify_otp 500 (verify_req ''123456'' ''login'') db_ann)) \<and>
   outcome_of (fst (verify_otp 600 (verify_req ''123456'' ''login'')
      (snd (verify_otp 500 (verify_req ''123456'' ''login'') db_ann)))) = NOT_FOUND"
proof -
  let ?a = "verify_otp 500 (verify_req ''654321'' ''application'') db_app"
  let ?b = "verify_otp 500 (verify_req ''123456'' ''login'') db_ann"
  have ra: "?a = (fst ?a, snd ?a)" and rb: "?b = (fst ?b, snd ?b)" by simp_all
  have oka: "success (fst ?a)"
    by (simp add: outcome_success verify_otp_outcome Validate_in_order_def)
  have okb: "success (fst ?b)"
    by (simp add: outcome_success verify_otp_outcome Validate_in_order_def)
  from verify_otp_single_use [OF store_ok_examples(1) ra oka, of 600]
  have a: "outcome_of (fst (verify_otp 600 (verify_req ''654321'' ''application'') (snd ?a))) = NOT_FOUND"
    by simp
  from verify_otp_single_use [OF store_ok_examples(2) rb okb, of 600]
  have b: "outcome_of (fst (verify_otp 600 (verify_req ''123456'' ''login'') (snd ?b))) = NOT_FOUND"
    by simp
  from store_ok_examples oka okb a b show ?thesis by simp
qed

end
